theory Spec2Isabelle
  imports Complex_Main "HOL-Library.AList" "HOL-Library.Multiset"
begin

section \<open>Python values used by the analysis script\<close>

text \<open>
  Exceptions that the script can meet.  Opening and reading the file may raise anything
  (\<open>FileNotFoundError\<close>, another \<open>OSError\<close>, \<open>UnicodeDecodeError\<close>); \<open>int(...)\<close> raises
  \<open>ValueError\<close> on a digit string longer than the interpreter's limit; the true division of two
  integers raises \<open>ZeroDivisionError\<close> on a zero divisor and \<open>OverflowError\<close> when the quotient
  is too large for a float.
\<close>

datatype exn =
    FileNotFoundError
  | OSError
  | UnicodeDecodeError
  | ValueError
  | OverflowError
  | ZeroDivisionError

text \<open>
  A Python float is an IEEE 754 binary64 number.  The script only divides two integers and
  multiplies the quotient by \<open>100\<close>, so no NaN arises: a float is a finite double, given by the
  rational number it denotes, or an infinity.  Comparison identifies \<open>-0.0\<close> and \<open>0.0\<close>, as
  Python's does, and the integer \<open>0\<close> of the guarded ratios is \<open>Finite 0\<close>.
\<close>

datatype pyfloat = NInf | Finite rat | PInf

instantiation pyfloat :: linorder
begin

fun less_eq_pyfloat :: "pyfloat \<Rightarrow> pyfloat \<Rightarrow> bool" where
  "less_eq_pyfloat NInf y = True"
| "less_eq_pyfloat (Finite a) NInf = False"
| "less_eq_pyfloat (Finite a) (Finite b) = (a \<le> b)"
| "less_eq_pyfloat (Finite a) PInf = True"
| "less_eq_pyfloat PInf NInf = False"
| "less_eq_pyfloat PInf (Finite b) = False"
| "less_eq_pyfloat PInf PInf = True"

definition less_pyfloat :: "pyfloat \<Rightarrow> pyfloat \<Rightarrow> bool" where
  "less_pyfloat x y = (x \<le> y \<and> \<not> y \<le> x)"

instance
proof
  fix x y z :: pyfloat
  show "(x < y) = (x \<le> y \<and> \<not> y \<le> x)"
    by (simp add: less_pyfloat_def)
  show "x \<le> x"
    by (cases x) simp_all
  show "x \<le> y \<Longrightarrow> y \<le> z \<Longrightarrow> x \<le> z"
    by (cases x; cases y; cases z) simp_all
  show "x \<le> y \<Longrightarrow> y \<le> x \<Longrightarrow> x = y"
    by (cases x; cases y) simp_all
  show "x \<le> y \<or> y \<le> x"
    by (cases x; cases y) auto
qed

end

subsection \<open>Rounding to binary64\<close>

text \<open>\<open>bit_length n\<close> is Python's \<open>n.bit_length()\<close>: the number of binary digits of \<open>n\<close>.\<close>

function bit_length :: "int \<Rightarrow> nat" where
  "bit_length n = (if n \<le> 0 then 0 else Suc (bit_length (n div 2)))"
  by pat_completeness auto
termination
  by (relation "measure nat") auto

declare bit_length.simps [simp del]

definition pow2 :: "int \<Rightarrow> rat" where
  "pow2 k = (if 0 \<le> k then 2 ^ nat k else 1 / 2 ^ nat (- k))"

text \<open>For \<open>x > 0\<close>, the exponent \<open>e\<close> with \<open>2 ^ e \<le> x < 2 ^ (e + 1)\<close>.\<close>

definition floor_log2 :: "rat \<Rightarrow> int" where
  "floor_log2 x =
     (let (p, q) = quotient_of x;
          d = int (bit_length p) - int (bit_length q)
      in if pow2 d \<le> x then d else d - 1)"

definition round_half_even :: "rat \<Rightarrow> int" where
  "round_half_even x =
     (let f = \<lfloor>x\<rfloor>; d = x - of_int f
      in if d < 1 / 2 then f
         else if 1 / 2 < d then f + 1
         else if even f then f else f + 1)"

text \<open>
  Round to nearest, ties to even, on the binary64 grid: 53 significant bits, and the spacing
  of the subnormal numbers below \<open>2 ^ - 1022\<close>.  The exponent is not bounded above here; the
  overflow test is \<open>double_overflows\<close>.
\<close>

definition round_binary64 :: "rat \<Rightarrow> rat" where
  "round_binary64 x =
     (if x = 0 then 0
      else let a = \<bar>x\<bar>;
               e = max (floor_log2 a) (- 1022);
               u = pow2 (e - 52)
           in sgn x * (of_int (round_half_even (a / u)) * u))"

text \<open>
  A real number rounds beyond the largest finite double exactly when its magnitude is at
  least \<open>2 ^ 1024 - 2 ^ 970\<close>, the midpoint between the largest double and \<open>2 ^ 1024\<close>.
\<close>

definition double_overflows :: "rat \<Rightarrow> bool" where
  "double_overflows x = (2 ^ 1024 - 2 ^ 970 \<le> \<bar>x\<bar>)"

text \<open>A float literal of the source (\<open>1.0\<close>, \<open>0.1\<close>, \<open>0.01\<close>, \<open>0.001\<close>) is the nearest double.\<close>

definition float_literal :: "rat \<Rightarrow> pyfloat" where
  "float_literal q = Finite (round_binary64 q)"

text \<open>
  \<open>a / b\<close> on two Python integers: the correctly rounded quotient, \<open>ZeroDivisionError\<close> when
  \<open>b = 0\<close>, \<open>OverflowError\<close> when the rounded quotient is not a finite double.
\<close>

definition py_truediv :: "int \<Rightarrow> int \<Rightarrow> exn + rat" where
  "py_truediv a b =
     (if b = 0 then Inl ZeroDivisionError
      else if double_overflows (of_int a / of_int b) then Inl OverflowError
      else Inr (round_binary64 (of_int a / of_int b)))"

text \<open>
  \<open>x * y\<close> on two finite floats: the rounded product; a product that overflows is an
  infinity, and no exception is raised.
\<close>

definition float_mul :: "rat \<Rightarrow> rat \<Rightarrow> pyfloat" where
  "float_mul x y =
     (if double_overflows (x * y) then (if 0 < x * y then PInf else NInf)
      else Finite (round_binary64 (x * y)))"

text \<open>
  The expression \<open>(n / d) * 100 if d > 0 else 0\<close>, which the script uses for the four ratios of
  an interface (lines 135 to 140) and for the overall ratio (line 354).
\<close>

definition guarded_ratio :: "int \<Rightarrow> int \<Rightarrow> exn + pyfloat" where
  "guarded_ratio n d =
     (if 0 < d
      then (case py_truediv n d of
              Inl e \<Rightarrow> Inl e
            | Inr q \<Rightarrow> Inr (float_mul q 100))
      else Inr (Finite 0))"

section \<open>The data model\<close>

text \<open>
  The dictionary that the scan keeps for one interface (lines 57 to 73), and the named tuple
  \<open>InterfaceData\<close> (lines 17 to 37), which has the same fields, the total and four ratios.
\<close>

record stats =
  name :: string
  input_packets :: int
  output_packets :: int
  input_rate :: int
  output_rate :: int
  input_errors :: int
  crc_errors :: int
  frame_errors :: int
  overrun_errors :: int
  ignored_errors :: int
  abort_errors :: int
  output_errors :: int
  underruns :: int
  input_drops :: int
  output_drops :: int

record InterfaceData = stats +
  total_packets :: int
  error_crc_ratio :: pyfloat
  error_ratio :: pyfloat
  crc_ratio :: pyfloat
  output_error_ratio :: pyfloat

datatype severity = CRITICAL | HIGH | MEDIUM | LOW | GOOD

section \<open>Ranking and classification\<close>

text \<open>
  \<open>sorted(xs, key=key, reverse=True)\<close>: CPython reverses the list, sorts it stably in
  ascending order of the key and reverses the result, so that equal keys keep their order.
\<close>

definition sorted_reverse :: "('a \<Rightarrow> 'k::linorder) \<Rightarrow> 'a list \<Rightarrow> 'a list" where
  "sorted_reverse key xs = rev (sort_key key (rev xs))"

text \<open>The status column of \<open>print_top_10_analysis\<close> (lines 216 to 223).\<close>

definition top_10_status :: "InterfaceData \<Rightarrow> severity" where
  "top_10_status i =
     (if float_literal 1 < error_crc_ratio i then CRITICAL
      else if float_literal (1 / 10) < error_crc_ratio i then HIGH
      else if float_literal (1 / 100) < error_crc_ratio i then MEDIUM
      else LOW)"

text \<open>The rows of the top-10 table (lines 184, 187, 212 and 214): rank, interface, status.\<close>

definition top_10 :: "InterfaceData list \<Rightarrow> InterfaceData list" where
  "top_10 interfaces =
     (let problem_interfaces = filter (\<lambda>i. Finite 0 < error_crc_ratio i) interfaces;
          sorted_interfaces = sorted_reverse error_crc_ratio problem_interfaces
      in take 10 sorted_interfaces)"

definition print_top_10_analysis :: "InterfaceData list \<Rightarrow> (nat \<times> InterfaceData \<times> severity) list" where
  "print_top_10_analysis interfaces =
     (if interfaces = [] then []
      else map (\<lambda>(k, i). (k, i, top_10_status i))
             (zip [1 ..< Suc (length (top_10 interfaces))] (top_10 interfaces)))"

text \<open>The status column of \<open>print_top_5_output_errors\<close> (lines 281 to 288).\<close>

definition top_5_status :: "InterfaceData \<Rightarrow> severity" where
  "top_5_status i =
     (if float_literal 1 < output_error_ratio i then CRITICAL
      else if float_literal (1 / 10) < output_error_ratio i then HIGH
      else if float_literal (1 / 100) < output_error_ratio i then MEDIUM
      else LOW)"

definition top_5_output :: "InterfaceData list \<Rightarrow> InterfaceData list" where
  "top_5_output interfaces =
     (let output_error_interfaces = filter (\<lambda>i. Finite 0 < output_error_ratio i) interfaces;
          sorted_output_errors = sorted_reverse output_error_ratio output_error_interfaces
      in take 5 sorted_output_errors)"

definition print_top_5_output_errors ::
  "InterfaceData list \<Rightarrow> (nat \<times> InterfaceData \<times> severity) list" where
  "print_top_5_output_errors interfaces =
     (if filter (\<lambda>i. Finite 0 < output_error_ratio i) interfaces = [] then []
      else map (\<lambda>(k, i). (k, i, top_5_status i))
             (zip [1 ..< Suc (length (top_5_output interfaces))] (top_5_output interfaces)))"

text \<open>The classification column of \<open>print_complete_analysis\<close> (lines 325 to 336).\<close>

definition classification :: "InterfaceData \<Rightarrow> severity" where
  "classification i =
     (let error_crc_sum = input_errors i + crc_errors i
      in if float_literal (1 / 10) < error_crc_ratio i then CRITICAL
         else if float_literal (1 / 100) < error_crc_ratio i then HIGH
         else if float_literal (1 / 1000) < error_crc_ratio i then MEDIUM
         else if 0 < error_crc_sum then LOW
         else GOOD)"

definition all_sorted :: "InterfaceData list \<Rightarrow> InterfaceData list" where
  "all_sorted interfaces = sorted_reverse error_crc_ratio interfaces"

text \<open>The rows of the complete table (lines 308 to 339): nothing for an empty list.\<close>

definition print_complete_analysis :: "InterfaceData list \<Rightarrow> (InterfaceData \<times> severity) list" where
  "print_complete_analysis interfaces =
     (if interfaces = [] then []
      else map (\<lambda>i. (i, classification i)) (all_sorted interfaces))"

section \<open>The record extractor\<close>

subsection \<open>The regular expressions\<close>

text \<open>
  A character of the text is a \<open>char\<close>, that is a code point below 256.  Among these,
  \<open>str.strip\<close> and the class \<open>\s\<close> take the following twelve for white space, \<open>\d\<close> matches
  the ten ASCII digits, and \<open>.\<close> matches everything but the line feed.
\<close>

definition whitespace :: string where
  "whitespace =
     [CHR 0x09, CHR 0x0A, CHR 0x0B, CHR 0x0C, CHR 0x0D, CHR 0x1C, CHR 0x1D, CHR 0x1E,
      CHR 0x1F, CHR 0x20, CHR 0x85, CHR 0xA0]"

definition digits :: string where
  "digits = ''0123456789''"

definition letters :: string where
  "letters = ''ABCDEFGHIJKLMNOPQRSTUVWXYZabcdefghijklmnopqrstuvwxyz''"

definition strip :: "string \<Rightarrow> string" where
  "strip s =
     rev (dropWhile (\<lambda>c. c \<in> set whitespace) (rev (dropWhile (\<lambda>c. c \<in> set whitespace) s)))"

text \<open>
  The patterns of the script are sequences of five kinds of items: a literal text, one
  character of a class (\<open>[A-Za-z]\<close>), one or more characters of a class, greedy (\<open>\d+\<close>,
  \<open>\s+\<close>, \<open>[A-Za-z0-9\-\.\/]+\<close>), the lazy \<open>.*?\<close>, and an alternative of literals
  (\<open>up|down\<close>).
\<close>

datatype tok =
    Lit string
  | One string
  | Many1 string
  | Lazy_any
  | Alt "string list"

primrec first_some :: "('a \<Rightarrow> 'b option) \<Rightarrow> 'a list \<Rightarrow> 'b option" where
  "first_some f [] = None"
| "first_some f (x # xs) = (case f x of Some y \<Rightarrow> Some y | None \<Rightarrow> first_some f xs)"

text \<open>
  A backtracking matcher, as Python's \<open>re\<close> is.  The rest of the pattern is the continuation
  \<open>k\<close>, which gets the text that is left and returns the texts that the later items consume.

  A greedy item takes the longest run of characters of its class first and gives characters
  back one by one, down to one character.  \<open>give_back k run rest\<close> has the run in reverse.
\<close>

fun give_back :: "(string \<Rightarrow> string list option) \<Rightarrow> string \<Rightarrow> string \<Rightarrow> string list option" where
  "give_back k [] rest = None"
| "give_back k (c # run) rest =
     (case k rest of
        Some r \<Rightarrow> Some (rev (c # run) # r)
      | None \<Rightarrow> give_back k run (c # rest))"

text \<open>
  The lazy \<open>.*?\<close> takes nothing first and one more character at a time, up to the end of the
  text or to a line feed.  \<open>take_more k taken s\<close> has the text taken so far in reverse.
\<close>

fun take_more :: "(string \<Rightarrow> string list option) \<Rightarrow> string \<Rightarrow> string \<Rightarrow> string list option" where
  "take_more k taken s =
     (case k s of
        Some r \<Rightarrow> Some (rev taken # r)
      | None \<Rightarrow>
          (case s of
             [] \<Rightarrow> None
           | c # s' \<Rightarrow> if c = CHR 0x0A then None else take_more k (c # taken) s'))"

text \<open>
  \<open>match_here p s\<close> matches the pattern at the start of \<open>s\<close> and returns the text that each
  item has consumed.  An alternative tries its branches in order.
\<close>

primrec match_here :: "tok list \<Rightarrow> string \<Rightarrow> string list option" where
  "match_here [] s = Some []"
| "match_here (t # ts) s =
     (case t of
        Lit l \<Rightarrow>
          (if take (length l) s = l
           then map_option ((#) l) (match_here ts (drop (length l) s))
           else None)
      | One cs \<Rightarrow>
          (case s of
             [] \<Rightarrow> None
           | c # s' \<Rightarrow>
               if c \<in> set cs then map_option ((#) [c]) (match_here ts s') else None)
      | Many1 cs \<Rightarrow>
          give_back (match_here ts)
            (rev (takeWhile (\<lambda>c. c \<in> set cs) s)) (dropWhile (\<lambda>c. c \<in> set cs) s)
      | Lazy_any \<Rightarrow> take_more (match_here ts) [] s
      | Alt ls \<Rightarrow>
          first_some
            (\<lambda>l. if take (length l) s = l
                 then map_option ((#) l) (match_here ts (drop (length l) s))
                 else None)
            ls)"

text \<open>\<open>re.match\<close> matches at the start of the line; \<open>re.search\<close> at the leftmost position
  where the pattern matches, the end of the line included.\<close>

definition re_match :: "tok list \<Rightarrow> string \<Rightarrow> string list option" where
  "re_match p s = match_here p s"

fun re_search :: "tok list \<Rightarrow> string \<Rightarrow> string list option" where
  "re_search p s =
     (case match_here p s of
        Some r \<Rightarrow> Some r
      | None \<Rightarrow> (case s of [] \<Rightarrow> None | c # s' \<Rightarrow> re_search p s'))"

declare re_search.simps [simp del] take_more.simps [simp del]

text \<open>Line 54: \<open>^([A-Za-z][A-Za-z0-9\-\.\/]+)\s+is\s+(up|down)\<close>; the result is \<open>group(1)\<close>.\<close>

definition interface_match :: "string \<Rightarrow> string option" where
  "interface_match line =
     (case re_match
             [One letters, Many1 (letters @ digits @ ''-./''), Many1 whitespace, Lit ''is'',
              Many1 whitespace, Alt [''up'', ''down'']] line of
        Some [a, b, _, _, _, _] \<Rightarrow> Some (a @ b)
      | _ \<Rightarrow> None)"

text \<open>Line 78: \<open>5 minute input rate.*?(\d+) packets/sec\<close>.\<close>

definition input_rate_match :: "string \<Rightarrow> string option" where
  "input_rate_match line =
     (case re_search
             [Lit ''5 minute input rate'', Lazy_any, Many1 digits, Lit '' packets/sec''] line of
        Some [_, _, g1, _] \<Rightarrow> Some g1
      | _ \<Rightarrow> None)"

text \<open>Line 84: \<open>5 minute output rate.*?(\d+) packets/sec\<close>.\<close>

definition output_rate_match :: "string \<Rightarrow> string option" where
  "output_rate_match line =
     (case re_search
             [Lit ''5 minute output rate'', Lazy_any, Many1 digits, Lit '' packets/sec''] line of
        Some [_, _, g1, _] \<Rightarrow> Some g1
      | _ \<Rightarrow> None)"

text \<open>Line 90: \<open>(\d+) packets input.*?(\d+) total input drops\<close>.\<close>

definition input_packets_match :: "string \<Rightarrow> (string \<times> string) option" where
  "input_packets_match line =
     (case re_search
             [Many1 digits, Lit '' packets input'', Lazy_any, Many1 digits,
              Lit '' total input drops''] line of
        Some [g1, _, _, g2, _] \<Rightarrow> Some (g1, g2)
      | _ \<Rightarrow> None)"

text \<open>Line 97: \<open>(\d+) packets output.*?(\d+) total output drops\<close>.\<close>

definition output_packets_match :: "string \<Rightarrow> (string \<times> string) option" where
  "output_packets_match line =
     (case re_search
             [Many1 digits, Lit '' packets output'', Lazy_any, Many1 digits,
              Lit '' total output drops''] line of
        Some [g1, _, _, g2, _] \<Rightarrow> Some (g1, g2)
      | _ \<Rightarrow> None)"

text \<open>Line 104:
  \<open>(\d+) input errors, (\d+) CRC, (\d+) frame, (\d+) overrun, (\d+) ignored, (\d+) abort\<close>.\<close>

definition error_match ::
  "string \<Rightarrow> (string \<times> string \<times> string \<times> string \<times> string \<times> string) option" where
  "error_match line =
     (case re_search
             [Many1 digits, Lit '' input errors, '', Many1 digits, Lit '' CRC, '',
              Many1 digits, Lit '' frame, '', Many1 digits, Lit '' overrun, '',
              Many1 digits, Lit '' ignored, '', Many1 digits, Lit '' abort''] line of
        Some [g1, _, g2, _, g3, _, g4, _, g5, _, g6, _] \<Rightarrow> Some (g1, g2, g3, g4, g5, g6)
      | _ \<Rightarrow> None)"

text \<open>Line 115: \<open>(\d+) output errors, (\d+) underruns\<close>.\<close>

definition output_error_match :: "string \<Rightarrow> (string \<times> string) option" where
  "output_error_match line =
     (case re_search
             [Many1 digits, Lit '' output errors, '', Many1 digits, Lit '' underruns''] line of
        Some [g1, _, g2, _] \<Rightarrow> Some (g1, g2)
      | _ \<Rightarrow> None)"

subsection \<open>Integers from digit strings\<close>

text \<open>
  \<open>int(g)\<close> for a text \<open>g\<close> without sign, blanks or underscores, which is all that a group
  \<open>(\d+)\<close> can hold: the decimal value of a string of digits, and \<open>ValueError\<close> for anything
  else.  The interpreter also refuses a string of more than \<open>sys.get_int_max_str_digits()\<close>
  digits, 4300 unless it is configured otherwise, with a \<open>ValueError\<close>; leading zeros count.
\<close>

definition int_max_str_digits :: int where
  "int_max_str_digits = 4300"

definition digit_value :: "char \<Rightarrow> int" where
  "digit_value c = of_char c - 48"

definition py_int :: "string \<Rightarrow> exn + int" where
  "py_int g =
     (if g = [] \<or> (\<exists>c \<in> set g. c \<notin> set digits) then Inl ValueError
      else if int_max_str_digits < int (length g) then Inl ValueError
      else Inr (foldl (\<lambda>n c. 10 * n + digit_value c) 0 g))"

definition with_int :: "string \<Rightarrow> (int \<Rightarrow> exn + 'a) \<Rightarrow> exn + 'a" where
  "with_int g f = (case py_int g of Inl e \<Rightarrow> Inl e | Inr v \<Rightarrow> f v)"

subsection \<open>The scan (lines 42 to 119)\<close>

record scan_state =
  current_interface :: "string option"
  interface_stats :: "(string \<times> stats) list"

text \<open>
  The dictionary \<open>interface_stats\<close> keeps its keys in the order of their first insertion; an
  assignment to a key that is present replaces the value in place.  \<open>AList.update\<close> does this.
\<close>

definition new_stats :: "string \<Rightarrow> stats" where
  "new_stats n =
     \<lparr>name = n, input_packets = 0, output_packets = 0, input_rate = 0, output_rate = 0,
      input_errors = 0, crc_errors = 0, frame_errors = 0, overrun_errors = 0,
      ignored_errors = 0, abort_errors = 0, output_errors = 0, underruns = 0,
      input_drops = 0, output_drops = 0\<rparr>"

definition initial_state :: scan_state where
  "initial_state = \<lparr>current_interface = None, interface_stats = []\<rparr>"

text \<open>\<open>interface_stats[cur][field] = v\<close>, for a key \<open>cur\<close> that is present.\<close>

definition assign :: "string \<Rightarrow> (stats \<Rightarrow> stats) \<Rightarrow> scan_state \<Rightarrow> scan_state" where
  "assign cur f s = s\<lparr>interface_stats := AList.map_entry cur f (interface_stats s)\<rparr>"

text \<open>Lines 77 to 119: the six field patterns, tried in order on a line that is no header.\<close>

definition field_line :: "string \<Rightarrow> string \<Rightarrow> scan_state \<Rightarrow> exn + scan_state" where
  "field_line line cur s =
     (case input_rate_match line of
        Some g1 \<Rightarrow> with_int g1 (\<lambda>v. Inr (assign cur (\<lambda>d. d\<lparr>input_rate := v\<rparr>) s))
      | None \<Rightarrow>
     (case output_rate_match line of
        Some g1 \<Rightarrow> with_int g1 (\<lambda>v. Inr (assign cur (\<lambda>d. d\<lparr>output_rate := v\<rparr>) s))
      | None \<Rightarrow>
     (case input_packets_match line of
        Some (g1, g2) \<Rightarrow>
          with_int g1 (\<lambda>v1. with_int g2 (\<lambda>v2.
            Inr (assign cur (\<lambda>d. d\<lparr>input_packets := v1, input_drops := v2\<rparr>) s)))
      | None \<Rightarrow>
     (case output_packets_match line of
        Some (g1, g2) \<Rightarrow>
          with_int g1 (\<lambda>v1. with_int g2 (\<lambda>v2.
            Inr (assign cur (\<lambda>d. d\<lparr>output_packets := v1, output_drops := v2\<rparr>) s)))
      | None \<Rightarrow>
     (case error_match line of
        Some (g1, g2, g3, g4, g5, g6) \<Rightarrow>
          with_int g1 (\<lambda>v1. with_int g2 (\<lambda>v2. with_int g3 (\<lambda>v3.
          with_int g4 (\<lambda>v4. with_int g5 (\<lambda>v5. with_int g6 (\<lambda>v6.
            Inr (assign cur
                   (\<lambda>d. d\<lparr>input_errors := v1, crc_errors := v2, frame_errors := v3,
                           overrun_errors := v4, ignored_errors := v5, abort_errors := v6\<rparr>)
                   s)))))))
      | None \<Rightarrow>
     (case output_error_match line of
        Some (g1, g2) \<Rightarrow>
          with_int g1 (\<lambda>v1. with_int g2 (\<lambda>v2.
            Inr (assign cur (\<lambda>d. d\<lparr>output_errors := v1, underruns := v2\<rparr>) s)))
      | None \<Rightarrow> Inr s))))))"

text \<open>
  Lines 51 to 119, the body of the loop over the lines.  The test
  \<open>current_interface and current_interface in interface_stats\<close> is false for \<open>None\<close> and for
  the empty string.
\<close>

definition scan_line :: "string \<Rightarrow> scan_state \<Rightarrow> exn + scan_state" where
  "scan_line raw s =
     (let line = strip raw
      in case interface_match line of
           Some n \<Rightarrow>
             Inr \<lparr>current_interface = Some n,
                  interface_stats = AList.update n (new_stats n) (interface_stats s)\<rparr>
         | None \<Rightarrow>
             (case current_interface s of
                None \<Rightarrow> Inr s
              | Some cur \<Rightarrow>
                  if cur \<noteq> [] \<and> cur \<in> fst ` set (interface_stats s)
                  then field_line line cur s
                  else Inr s))"

fun scan_lines :: "string list \<Rightarrow> scan_state \<Rightarrow> exn + scan_state" where
  "scan_lines [] s = Inr s"
| "scan_lines (l # ls) s =
     (case scan_line l s of Inl e \<Rightarrow> Inl e | Inr s' \<Rightarrow> scan_lines ls s')"

section \<open>The metrics engine (lines 122 to 165)\<close>

definition interface_data :: "stats \<Rightarrow> exn + InterfaceData" where
  "interface_data data =
     (let total = input_packets data + output_packets data;
          error_crc_sum = input_errors data + crc_errors data
      in case guarded_ratio error_crc_sum (input_packets data) of
           Inl e \<Rightarrow> Inl e
         | Inr r1 \<Rightarrow>
      (case guarded_ratio (input_errors data) (input_packets data) of
           Inl e \<Rightarrow> Inl e
         | Inr r2 \<Rightarrow>
      (case guarded_ratio (crc_errors data) (input_packets data) of
           Inl e \<Rightarrow> Inl e
         | Inr r3 \<Rightarrow>
      (case guarded_ratio (output_errors data) (output_packets data) of
           Inl e \<Rightarrow> Inl e
         | Inr r4 \<Rightarrow>
             Inr \<lparr>name = name data,
                  input_packets = input_packets data,
                  output_packets = output_packets data,
                  input_rate = input_rate data,
                  output_rate = output_rate data,
                  input_errors = input_errors data,
                  crc_errors = crc_errors data,
                  frame_errors = frame_errors data,
                  overrun_errors = overrun_errors data,
                  ignored_errors = ignored_errors data,
                  abort_errors = abort_errors data,
                  output_errors = output_errors data,
                  underruns = underruns data,
                  input_drops = input_drops data,
                  output_drops = output_drops data,
                  total_packets = total,
                  error_crc_ratio = r1,
                  error_ratio = r2,
                  crc_ratio = r3,
                  output_error_ratio = r4\<rparr>))))"

text \<open>The loop over \<open>interface_stats.items()\<close>; \<open>interfaces\<close> is the list built so far.\<close>

fun process_stats ::
  "(string \<times> stats) list \<Rightarrow> InterfaceData list \<Rightarrow> exn + InterfaceData list" where
  "process_stats [] interfaces = Inr interfaces"
| "process_stats ((n, data) # rest) interfaces =
     (let total = input_packets data + output_packets data
      in if total = 0 then process_stats rest interfaces
         else let max_rate = max (input_rate data) (output_rate data)
              in if max_rate < 100000 then process_stats rest interfaces
                 else (case interface_data data of
                         Inl e \<Rightarrow> Inl e
                       | Inr i \<Rightarrow> process_stats rest (interfaces @ [i])))"

section \<open>\<open>parse_interface_data\<close>\<close>

text \<open>
  What the function prints: \<open>Error: File {filename} not found\<close> or
  \<open>Error parsing file: {e}\<close>.
\<close>

datatype message = File_not_found string | Error_parsing_file exn

text \<open>
  The file system is a function from file names to the outcome of opening the file and
  reading its lines.  The whole body is inside the \<open>try\<close>: \<open>FileNotFoundError\<close> goes to the
  first handler, every other exception to the second, and both return the empty list.
\<close>

definition handler :: "string \<Rightarrow> exn \<Rightarrow> message list \<times> InterfaceData list" where
  "handler filename e =
     (if e = FileNotFoundError then ([File_not_found filename], [])
      else ([Error_parsing_file e], []))"

definition parse_interface_data ::
  "(string \<Rightarrow> exn + string list) \<Rightarrow> string \<Rightarrow> message list \<times> InterfaceData list" where
  "parse_interface_data fs filename =
     (case fs filename of
        Inl e \<Rightarrow> handler filename e
      | Inr lines \<Rightarrow>
          (case scan_lines lines initial_state of
             Inl e \<Rightarrow> handler filename e
           | Inr s \<Rightarrow>
               (case process_stats (interface_stats s) [] of
                  Inl e \<Rightarrow> handler filename e
                | Inr interfaces \<Rightarrow> ([], interfaces))))"

section \<open>The aggregator (lines 346 to 354 of \<open>print_complete_analysis\<close>)\<close>




section \<open>Notions used in the statements and proofs\<close>

text \<open>The header names of a text, in order, and the first occurrences of a list.\<close>

primrec header_names :: "string list \<Rightarrow> string list" where
  "header_names [] = []"
| "header_names (l # ls) =
     (case interface_match (strip l) of
        Some n \<Rightarrow> n # header_names ls
      | None \<Rightarrow> header_names ls)"

primrec first_occurrences :: "'a list \<Rightarrow> 'a list" where
  "first_occurrences [] = []"
| "first_occurrences (x # xs) = x # filter (\<lambda>y. y \<noteq> x) (first_occurrences xs)"

text \<open>The keys of a dictionary after an assignment to the key \<open>n\<close>.\<close>

definition add_key :: "'a list \<Rightarrow> 'a \<Rightarrow> 'a list" where
  "add_key ks n = (if n \<in> set ks then ks else ks @ [n])"

text \<open>The two filters of the metrics engine (lines 125 and 130).\<close>

definition passes :: "stats \<Rightarrow> bool" where
  "passes d =
     (input_packets d + output_packets d \<noteq> 0 \<and> \<not> max (input_rate d) (output_rate d) < 100000)"

definition counters_nonneg :: "'a stats_scheme \<Rightarrow> bool" where
  "counters_nonneg d =
     (0 \<le> input_packets d \<and> 0 \<le> output_packets d \<and> 0 \<le> input_rate d \<and> 0 \<le> output_rate d
      \<and> 0 \<le> input_errors d \<and> 0 \<le> crc_errors d \<and> 0 \<le> frame_errors d
      \<and> 0 \<le> overrun_errors d \<and> 0 \<le> ignored_errors d \<and> 0 \<le> abort_errors d
      \<and> 0 \<le> output_errors d \<and> 0 \<le> underruns d \<and> 0 \<le> input_drops d \<and> 0 \<le> output_drops d)"

text \<open>What the scan keeps true of its state.\<close>

definition scan_inv :: "scan_state \<Rightarrow> bool" where
  "scan_inv s =
     (distinct (map fst (interface_stats s))
      \<and> (\<forall>(k, d) \<in> set (interface_stats s). name d = k \<and> counters_nonneg d)
      \<and> (\<forall>c. current_interface s = Some c \<longrightarrow> c \<in> fst ` set (interface_stats s)))"

text \<open>
  The update that a line which is no header makes to the record of the current interface:
  \<open>field_line\<close> without the dictionary.
\<close>

definition field_update :: "string \<Rightarrow> exn + (stats \<Rightarrow> stats)" where
  "field_update line =
     (case input_rate_match line of
        Some g1 \<Rightarrow> with_int g1 (\<lambda>v. Inr (\<lambda>d. d\<lparr>input_rate := v\<rparr>))
      | None \<Rightarrow>
     (case output_rate_match line of
        Some g1 \<Rightarrow> with_int g1 (\<lambda>v. Inr (\<lambda>d. d\<lparr>output_rate := v\<rparr>))
      | None \<Rightarrow>
     (case input_packets_match line of
        Some (g1, g2) \<Rightarrow>
          with_int g1 (\<lambda>v1. with_int g2 (\<lambda>v2.
            Inr (\<lambda>d. d\<lparr>input_packets := v1, input_drops := v2\<rparr>)))
      | None \<Rightarrow>
     (case output_packets_match line of
        Some (g1, g2) \<Rightarrow>
          with_int g1 (\<lambda>v1. with_int g2 (\<lambda>v2.
            Inr (\<lambda>d. d\<lparr>output_packets := v1, output_drops := v2\<rparr>)))
      | None \<Rightarrow>
     (case error_match line of
        Some (g1, g2, g3, g4, g5, g6) \<Rightarrow>
          with_int g1 (\<lambda>v1. with_int g2 (\<lambda>v2. with_int g3 (\<lambda>v3.
          with_int g4 (\<lambda>v4. with_int g5 (\<lambda>v5. with_int g6 (\<lambda>v6.
            Inr (\<lambda>d. d\<lparr>input_errors := v1, crc_errors := v2, frame_errors := v3,
                         overrun_errors := v4, ignored_errors := v5, abort_errors := v6\<rparr>)))))))
      | None \<Rightarrow>
     (case output_error_match line of
        Some (g1, g2) \<Rightarrow>
          with_int g1 (\<lambda>v1. with_int g2 (\<lambda>v2.
            Inr (\<lambda>d. d\<lparr>output_errors := v1, underruns := v2\<rparr>)))
      | None \<Rightarrow> Inr (\<lambda>d. d)))))))"

definition lift_update :: "((stats \<Rightarrow> stats) \<Rightarrow> 'a) \<Rightarrow> exn + (stats \<Rightarrow> stats) \<Rightarrow> exn + 'a" where
  "lift_update A r = (case r of Inl e \<Rightarrow> Inl e | Inr f \<Rightarrow> Inr (A f))"

definition good_update :: "(stats \<Rightarrow> stats) \<Rightarrow> bool" where
  "good_update f = (\<forall>d. name (f d) = name d \<and> (counters_nonneg d \<longrightarrow> counters_nonneg (f d)))"

section \<open>Sample data\<close>

text \<open>
  Four interfaces as the metrics engine computes them: \<open>1 / 200 * 100\<close> is \<open>0.5\<close>,
  \<open>1 / 2 * 100\<close> is \<open>50.0\<close> and \<open>1 / 1000 * 100\<close> is \<open>0.1\<close>.
\<close>

definition stats_a :: stats where
  "stats_a = (new_stats ''Gi0/1'')\<lparr>input_packets := 200, input_rate := 100000, input_errors := 1\<rparr>"

definition stats_b :: stats where
  "stats_b =
     (new_stats ''Gi0/2'')\<lparr>input_packets := 2, output_packets := 2, output_rate := 100000,
       input_errors := 1, output_errors := 1\<rparr>"

definition stats_c :: stats where
  "stats_c = (new_stats ''Gi0/3'')\<lparr>input_packets := 200, input_rate := 100000, crc_errors := 1\<rparr>"

definition stats_tenth :: stats where
  "stats_tenth =
     (new_stats ''Gi0/4'')\<lparr>input_packets := 1000, input_rate := 100000, input_errors := 1\<rparr>"

definition interface_a :: InterfaceData where
  "interface_a =
     \<lparr>name = ''Gi0/1'', input_packets = 200, output_packets = 0, input_rate = 100000,
      output_rate = 0, input_errors = 1, crc_errors = 0, frame_errors = 0,
      overrun_errors = 0, ignored_errors = 0, abort_errors = 0, output_errors = 0,
      underruns = 0, input_drops = 0, output_drops = 0, total_packets = 200,
      error_crc_ratio = Finite (1 / 2), error_ratio = Finite (1 / 2), crc_ratio = Finite 0,
      output_error_ratio = Finite 0\<rparr>"

definition interface_b :: InterfaceData where
  "interface_b =
     \<lparr>name = ''Gi0/2'', input_packets = 2, output_packets = 2, input_rate = 0,
      output_rate = 100000, input_errors = 1, crc_errors = 0, frame_errors = 0,
      overrun_errors = 0, ignored_errors = 0, abort_errors = 0, output_errors = 1,
      underruns = 0, input_drops = 0, output_drops = 0, total_packets = 4,
      error_crc_ratio = Finite 50, error_ratio = Finite 50, crc_ratio = Finite 0,
      output_error_ratio = Finite 50\<rparr>"

definition interface_c :: InterfaceData where
  "interface_c =
     \<lparr>name = ''Gi0/3'', input_packets = 200, output_packets = 0, input_rate = 100000,
      output_rate = 0, input_errors = 0, crc_errors = 1, frame_errors = 0,
      overrun_errors = 0, ignored_errors = 0, abort_errors = 0, output_errors = 0,
      underruns = 0, input_drops = 0, output_drops = 0, total_packets = 200,
      error_crc_ratio = Finite (1 / 2), error_ratio = Finite 0, crc_ratio = Finite (1 / 2),
      output_error_ratio = Finite 0\<rparr>"

definition interface_tenth :: InterfaceData where
  "interface_tenth =
     \<lparr>name = ''Gi0/4'', input_packets = 1000, output_packets = 0, input_rate = 100000,
      output_rate = 0, input_errors = 1, crc_errors = 0, frame_errors = 0,
      overrun_errors = 0, ignored_errors = 0, abort_errors = 0, output_errors = 0,
      underruns = 0, input_drops = 0, output_drops = 0, total_packets = 1000,
      error_crc_ratio = float_literal (1 / 10), error_ratio = float_literal (1 / 10),
      crc_ratio = Finite 0, output_error_ratio = Finite 0\<rparr>"

text \<open>
  A text with two interfaces.  The header of \<open>Gi0/1\<close> comes twice, and the line \<open>MTU 1500
  bytes\<close> matches no pattern.  The scan ends with the records of \<open>stats_a\<close> and \<open>stats_b\<close>.
\<close>

definition sample_pre :: "string list" where
  "sample_pre =
     [''Gi0/1 is up'',
      ''  5 minute input rate 100000 packets/sec'',
      ''  7 packets input, 0 total input drops'',
      ''Gi0/2 is down'',
      ''  5 minute output rate 100000 packets/sec'',
      ''  2 packets input, 0 total input drops'',
      ''  2 packets output, 0 total output drops'',
      ''  1 input errors, 0 CRC, 0 frame, 0 overrun, 0 ignored, 0 abort'',
      ''  1 output errors, 0 underruns'']"

definition sample_header :: string where
  "sample_header = ''Gi0/1 is up''"

definition sample_post :: "string list" where
  "sample_post =
     [''  MTU 1500 bytes'',
      ''  5 minute input rate 100000 packets/sec'',
      ''  200 packets input, 0 total input drops'',
      ''  1 input errors, 0 CRC, 0 frame, 0 overrun, 0 ignored, 0 abort'']"

definition sample_lines :: "string list" where
  "sample_lines = sample_pre @ sample_header # sample_post"

definition sample_state :: scan_state where
  "sample_state =
     \<lparr>current_interface = Some ''Gi0/1'',
      interface_stats = [(''Gi0/1'', stats_a), (''Gi0/2'', stats_b)]\<rparr>"

text \<open>
  A text whose last line has an input error count of 309 digits, a two and 308 zeros, and the
  record that the scan builds from it.
\<close>

definition huge_count :: int where
  "huge_count = 2 * 10 ^ 308"

definition huge_digits :: string where
  "huge_digits = CHR ''2'' # replicate 308 (CHR ''0'')"

definition huge_tail :: string where
  "huge_tail = '' input errors, 0 CRC, 0 frame, 0 overrun, 0 ignored, 0 abort''"

definition huge_line :: string where
  "huge_line = huge_digits @ huge_tail"

definition huge_head :: "string list" where
  "huge_head =
     [''Gi0/1 is up'',
      ''5 minute input rate 100000 packets/sec'',
      ''1 packets input, 0 total input drops'']"

definition huge_lines :: "string list" where
  "huge_lines = huge_head @ [huge_line]"

definition stats_huge :: stats where
  "stats_huge =
     (new_stats ''Gi0/1'')\<lparr>input_packets := 1, input_rate := 100000, input_errors := huge_count\<rparr>"

definition huge_state :: scan_state where
  "huge_state =
     \<lparr>current_interface = Some ''Gi0/1'', interface_stats = [(''Gi0/1'', stats_huge)]\<rparr>"

section \<open>Floats\<close>

lemma less_Finite [simp]: "(Finite a < Finite b) = (a < b)"
  by (auto simp: less_pyfloat_def)

lemma float_literal_1: "float_literal 1 = Finite 1"
  by code_simp

lemma float_literal_tenth:
  "float_literal (1 / 10) = Finite (3602879701896397 / 36028797018963968)"
  by code_simp

lemma float_literal_hundredth:
  "float_literal (1 / 100) = Finite (5764607523034235 / 576460752303423488)"
  by code_simp

lemma float_literal_thousandth:
  "float_literal (1 / 1000) = Finite (1152921504606847 / 1152921504606846976)"
  by code_simp

lemmas float_literals =
  float_literal_1 float_literal_tenth float_literal_hundredth float_literal_thousandth

lemma literal_order:
  "Finite 0 < float_literal (1 / 1000)"
  "float_literal (1 / 1000) < float_literal (1 / 100)"
  "float_literal (1 / 100) < float_literal (1 / 10)"
  "float_literal (1 / 10) < float_literal 1"
  by (simp_all add: float_literals)

lemma round_binary64_0 [simp]: "round_binary64 0 = 0"
  by (simp add: round_binary64_def)

lemma double_overflows_0 [simp]: "\<not> double_overflows 0"
  by (simp add: double_overflows_def)

lemma guarded_ratio_nonpos [simp]: "d \<le> 0 \<Longrightarrow> guarded_ratio n d = Inr (Finite 0)"
  by (simp add: guarded_ratio_def)

lemma guarded_ratio_0 [simp]: "guarded_ratio 0 d = Inr (Finite 0)"
  by (simp add: guarded_ratio_def py_truediv_def float_mul_def)

lemma guarded_ratio_pos:
  "0 < d \<Longrightarrow>
   guarded_ratio n d =
     (if double_overflows (of_int n / of_int d) then Inl OverflowError
      else Inr (float_mul (round_binary64 (of_int n / of_int d)) 100))"
  by (simp add: guarded_ratio_def py_truediv_def)

lemma guarded_ratio_not_zero_division: "guarded_ratio n d \<noteq> Inl ZeroDivisionError"
  by (simp add: guarded_ratio_def py_truediv_def split: sum.splits)

lemma guarded_ratio_eval:
  assumes "0 < d"
    and "\<not> double_overflows (of_int n / of_int d)"
    and "round_binary64 (of_int n / of_int d) = q"
    and "\<not> double_overflows (q * 100)"
    and "round_binary64 (q * 100) = r"
  shows "guarded_ratio n d = Inr (Finite r)"
  using assms by (simp add: guarded_ratio_pos float_mul_def)

lemma guarded_ratio_1_200: "guarded_ratio 1 200 = Inr (Finite (1 / 2))"
proof (rule guarded_ratio_eval [where q = "5764607523034235 / 1152921504606846976"])
  show "(0::int) < 200"
    by simp
  show "\<not> double_overflows (of_int 1 / of_int 200)"
    by (simp add: double_overflows_def)
  show "round_binary64 (of_int 1 / of_int 200) = 5764607523034235 / 1152921504606846976"
    by code_simp
  show "\<not> double_overflows (5764607523034235 / 1152921504606846976 * 100)"
    by (simp add: double_overflows_def)
  show "round_binary64 (5764607523034235 / 1152921504606846976 * 100) = 1 / 2"
    by code_simp
qed

lemma guarded_ratio_1_2: "guarded_ratio 1 2 = Inr (Finite 50)"
proof (rule guarded_ratio_eval [where q = "1 / 2"])
  show "(0::int) < 2"
    by simp
  show "\<not> double_overflows (of_int 1 / of_int 2)"
    by (simp add: double_overflows_def)
  show "round_binary64 (of_int 1 / of_int 2) = 1 / 2"
    by code_simp
  show "\<not> double_overflows (1 / 2 * 100)"
    by (simp add: double_overflows_def)
  show "round_binary64 (1 / 2 * 100) = 50"
    by code_simp
qed

lemma guarded_ratio_1_1000: "guarded_ratio 1 1000 = Inr (float_literal (1 / 10))"
  unfolding float_literal_tenth
proof (rule guarded_ratio_eval [where q = "1152921504606847 / 1152921504606846976"])
  show "(0::int) < 1000"
    by simp
  show "\<not> double_overflows (of_int 1 / of_int 1000)"
    by (simp add: double_overflows_def)
  show "round_binary64 (of_int 1 / of_int 1000) = 1152921504606847 / 1152921504606846976"
    by code_simp
  show "\<not> double_overflows (1152921504606847 / 1152921504606846976 * 100)"
    by (simp add: double_overflows_def)
  show "round_binary64 (1152921504606847 / 1152921504606846976 * 100)
          = 3602879701896397 / 36028797018963968"
    by code_simp
qed

lemma interface_data_a: "interface_data stats_a = Inr interface_a"
  by (simp add: interface_data_def stats_a_def interface_a_def new_stats_def guarded_ratio_1_200)

lemma interface_data_b: "interface_data stats_b = Inr interface_b"
  by (simp add: interface_data_def stats_b_def interface_b_def new_stats_def guarded_ratio_1_2)

lemma interface_data_c: "interface_data stats_c = Inr interface_c"
  by (simp add: interface_data_def stats_c_def interface_c_def new_stats_def guarded_ratio_1_200)

lemma interface_data_tenth: "interface_data stats_tenth = Inr interface_tenth"
  by (simp add: interface_data_def stats_tenth_def interface_tenth_def new_stats_def
      guarded_ratio_1_1000)

section \<open>Ranking\<close>

lemma sorted_reverse_mset [simp]: "mset (sorted_reverse key xs) = mset xs"
  by (simp add: sorted_reverse_def)

lemma sorted_reverse_set [simp]: "set (sorted_reverse key xs) = set xs"
  by (simp add: sorted_reverse_def)

lemma sorted_reverse_length [simp]: "length (sorted_reverse key xs) = length xs"
  by (simp add: sorted_reverse_def)

lemma sorted_reverse_descending:
  "sorted_wrt (\<lambda>a b. key b \<le> key a) (sorted_reverse key xs)"
proof -
  have "sorted (map key (sort_key key (rev xs)))"
    by (rule sorted_sort_key)
  then show ?thesis
    by (simp add: sorted_reverse_def sorted_map sorted_wrt_rev)
qed

lemma sorted_reverse_stable:
  "filter (\<lambda>x. key x = k) (sorted_reverse key xs) = filter (\<lambda>x. key x = k) xs"
proof -
  have "filter (\<lambda>x. key x = k) (sorted_reverse key xs)
          = rev (filter (\<lambda>x. key x = k) (sort_key key (rev xs)))"
    by (simp add: sorted_reverse_def rev_filter)
  also have "\<dots> = rev (filter (\<lambda>x. key x = k) (rev xs))"
    by (simp add: sort_key_stable)
  also have "\<dots> = filter (\<lambda>x. key x = k) xs"
    by (simp add: rev_filter [symmetric])
  finally show ?thesis .
qed

lemma sorted_reverse_unique:
  assumes perm: "mset ys = mset xs"
    and desc: "sorted_wrt (\<lambda>a b. key b \<le> key a) ys"
    and stable: "\<forall>k. filter (\<lambda>x. key x = k) ys = filter (\<lambda>x. key x = k) xs"
  shows "sorted_reverse key xs = ys"
proof -
  have "sort_key key (rev xs) = rev ys"
  proof (rule properties_for_sort_key)
    show "mset (rev ys) = mset (rev xs)"
      using perm by simp
    show "filter (\<lambda>x. key k = key x) (rev ys) = filter (\<lambda>x. key k = key x) (rev xs)" for k
    proof -
      have "filter (\<lambda>x. key x = key k) ys = filter (\<lambda>x. key x = key k) xs"
        using stable by blast
      then have "rev (filter (\<lambda>x. key x = key k) ys) = rev (filter (\<lambda>x. key x = key k) xs)"
        by simp
      then show ?thesis
        by (simp add: rev_filter eq_commute)
    qed
    show "sorted (map key (rev ys))"
      using desc by (simp add: sorted_map sorted_wrt_rev)
  qed
  then show ?thesis
    by (simp add: sorted_reverse_def)
qed

lemma sorted_reverse_eval [simp]:
  "sorted_reverse key [] = []"
  "sorted_reverse key [x] = [x]"
  by (simp_all add: sorted_reverse_def)

lemma print_top_10_status:
  "(k, i, st) \<in> set (print_top_10_analysis interfaces) \<Longrightarrow> st = top_10_status i"
  by (auto simp: print_top_10_analysis_def split: if_splits dest!: set_zip_rightD)

lemma sample_sorted:
  "sorted_reverse error_crc_ratio [interface_a, interface_b, interface_c]
     = [interface_b, interface_a, interface_c]"
  by (simp add: sorted_reverse_def sort_key_def interface_a_def interface_b_def interface_c_def)

lemma sample_sorted_positive:
  "filter (\<lambda>i. Finite 0 < error_crc_ratio i) [interface_a, interface_b, interface_c]
     = [interface_a, interface_b, interface_c]"
  by (simp add: interface_a_def interface_b_def interface_c_def)

lemma sample_output_positive:
  "filter (\<lambda>i. Finite 0 < output_error_ratio i) [interface_a, interface_b, interface_c]
     = [interface_b]"
  by (simp add: interface_a_def interface_b_def interface_c_def)

lemma sample_print_complete:
  "map fst (print_complete_analysis [interface_a, interface_b, interface_c])
     = [interface_b, interface_a, interface_c]"
  by (simp add: print_complete_analysis_def all_sorted_def sample_sorted comp_def)

section \<open>The claims on ranking and classification\<close>

text \<open>
  C1 (as the source has it).  In the top-10 view the comparisons with the thresholds are
  strict: a row is CRITICAL exactly when its \<open>error_crc_ratio\<close> is above \<open>1.0\<close>, HIGH exactly
  when it is above \<open>0.1\<close> and at most \<open>1.0\<close>, MEDIUM exactly when it is above \<open>0.01\<close> and at
  most \<open>0.1\<close>, and LOW exactly when it is at most \<open>0.01\<close>.  So a row whose ratio is exactly
  \<open>0.1\<close> is MEDIUM, neither HIGH nor CRITICAL, and a row whose ratio is exactly \<open>1.0\<close> is
  HIGH.
\<close>

theorem top_10_view_strict_tiers:
  assumes "(k, i, st) \<in> set (print_top_10_analysis interfaces)"
  shows "(st = CRITICAL \<longleftrightarrow> float_literal 1 < error_crc_ratio i)
    \<and> (st = HIGH \<longleftrightarrow>
          float_literal (1 / 10) < error_crc_ratio i \<and> error_crc_ratio i \<le> float_literal 1)
    \<and> (st = MEDIUM \<longleftrightarrow>
          float_literal (1 / 100) < error_crc_ratio i
          \<and> error_crc_ratio i \<le> float_literal (1 / 10))
    \<and> (st = LOW \<longleftrightarrow> error_crc_ratio i \<le> float_literal (1 / 100))
    \<and> (error_crc_ratio i = float_literal (1 / 10) \<longrightarrow> st = MEDIUM)
    \<and> (error_crc_ratio i = float_literal 1 \<longrightarrow> st = HIGH)"
proof -
  have st: "st = top_10_status i"
    using assms by (rule print_top_10_status)
  show ?thesis
    unfolding st top_10_status_def
    using literal_order by (auto simp: not_less)
qed

text \<open>
  The interface \<open>Gi0/4\<close> of the sample data, with one input error in a thousand packets, has
  the ratio \<open>0.1\<close> and is the only row of its top-10 table.
\<close>

lemma print_top_10_tenth:
  "print_top_10_analysis [interface_tenth] = [(1, interface_tenth, top_10_status interface_tenth)]"
proof -
  have "Finite 0 < error_crc_ratio interface_tenth"
    by (simp add: interface_tenth_def float_literal_tenth)
  then show ?thesis
    by (simp add: print_top_10_analysis_def top_10_def)
qed

theorem top_10_view_strict_tiers_witness:
  "(1, interface_tenth, top_10_status interface_tenth) \<in> set (print_top_10_analysis [interface_tenth])
   \<and> error_crc_ratio interface_tenth = float_literal (1 / 10)
   \<and> float_literal (1 / 100) < error_crc_ratio interface_tenth
   \<and> error_crc_ratio interface_tenth \<le> float_literal (1 / 10)
   \<and> top_10_status interface_tenth = MEDIUM"
proof -
  have row: "(1, interface_tenth, top_10_status interface_tenth)
               \<in> set (print_top_10_analysis [interface_tenth])"
    by (simp add: print_top_10_tenth)
  have ratio: "error_crc_ratio interface_tenth = float_literal (1 / 10)"
    by (simp add: interface_tenth_def)
  have "float_literal (1 / 100) < error_crc_ratio interface_tenth"
    using literal_order by (simp add: ratio)
  with top_10_view_strict_tiers [OF row] row ratio show ?thesis
    by simp
qed

text \<open>
  C1 (as the specification states it) fails: the metrics engine gives \<open>Gi0/4\<close> the ratio
  \<open>0.1\<close>, and the top-10 table shows it as MEDIUM, not as HIGH.
\<close>

theorem top_10_tenth_not_high:
  "interface_data stats_tenth = Inr interface_tenth
   \<and> error_crc_ratio interface_tenth = float_literal (1 / 10)
   \<and> print_top_10_analysis [interface_tenth] = [(1, interface_tenth, MEDIUM)]
   \<and> MEDIUM \<noteq> HIGH"
proof -
  have "top_10_status interface_tenth = MEDIUM"
    using literal_order by (simp add: top_10_status_def interface_tenth_def not_less)
  then show ?thesis
    by (simp add: print_top_10_tenth interface_data_tenth) (simp add: interface_tenth_def)
qed

text \<open>
  C4.  The complete ranked view holds exactly the records it is given, in descending order of
  \<open>error_crc_ratio\<close> (each row is at least the next one), and the records of equal ratio are
  in the order they have in the input.
\<close>

theorem complete_view_stable_descending:
  assumes "ys = map fst (print_complete_analysis interfaces)"
  shows "mset ys = mset interfaces
    \<and> (\<forall>j. Suc j < length ys \<longrightarrow> error_crc_ratio (ys ! Suc j) \<le> error_crc_ratio (ys ! j))
    \<and> (\<forall>k. filter (\<lambda>i. error_crc_ratio i = k) ys
              = filter (\<lambda>i. error_crc_ratio i = k) interfaces)"
proof -
  have ys: "ys = sorted_reverse error_crc_ratio interfaces"
    using assms by (simp add: print_complete_analysis_def all_sorted_def comp_def)
  have "sorted_wrt (\<lambda>a b. error_crc_ratio b \<le> error_crc_ratio a) ys"
    unfolding ys by (rule sorted_reverse_descending)
  then have "\<forall>j. Suc j < length ys \<longrightarrow> error_crc_ratio (ys ! Suc j) \<le> error_crc_ratio (ys ! j)"
    by (simp add: sorted_wrt_iff_nth_less)
  then show ?thesis
    by (simp add: ys sorted_reverse_stable)
qed

theorem complete_view_stable_descending_witness:
  "[interface_b, interface_a, interface_c]
     = map fst (print_complete_analysis [interface_a, interface_b, interface_c])
   \<and> Suc 0 < length [interface_b, interface_a, interface_c]
   \<and> error_crc_ratio ([interface_b, interface_a, interface_c] ! Suc 0)
        \<le> error_crc_ratio ([interface_b, interface_a, interface_c] ! 0)
   \<and> filter (\<lambda>i. error_crc_ratio i = Finite (1 / 2)) [interface_b, interface_a, interface_c]
        = filter (\<lambda>i. error_crc_ratio i = Finite (1 / 2))
            [interface_a, interface_b, interface_c]"
proof -
  have ys: "[interface_b, interface_a, interface_c]
              = map fst (print_complete_analysis [interface_a, interface_b, interface_c])"
    by (simp add: sample_print_complete)
  note sorted = complete_view_stable_descending [OF ys]
  from sorted
  have "Suc 0 < length [interface_b, interface_a, interface_c]
        \<longrightarrow> error_crc_ratio ([interface_b, interface_a, interface_c] ! Suc 0)
              \<le> error_crc_ratio ([interface_b, interface_a, interface_c] ! 0)"
    by blast
  moreover from sorted
  have "filter (\<lambda>i. error_crc_ratio i = Finite (1 / 2)) [interface_b, interface_a, interface_c]
          = filter (\<lambda>i. error_crc_ratio i = Finite (1 / 2))
              [interface_a, interface_b, interface_c]"
    by blast
  ultimately show ?thesis
    by (simp add: sample_print_complete)
qed

text \<open>
  C5.  Every row of the complete ranked view carries the five-tier classification: CRITICAL
  above \<open>0.1\<close>, else HIGH above \<open>0.01\<close>, else MEDIUM above \<open>0.001\<close>, else LOW when the sum of
  input and CRC errors is positive, else GOOD.  The thresholds are not those of the top-10
  view: a ratio above \<open>0.1\<close> and at most \<open>1.0\<close> is CRITICAL here and HIGH there.
\<close>

theorem complete_view_five_tiers:
  assumes "(i, c) \<in> set (print_complete_analysis interfaces)"
  shows "(c = CRITICAL \<longleftrightarrow> float_literal (1 / 10) < error_crc_ratio i)
    \<and> (c = HIGH \<longleftrightarrow>
          float_literal (1 / 100) < error_crc_ratio i
          \<and> error_crc_ratio i \<le> float_literal (1 / 10))
    \<and> (c = MEDIUM \<longleftrightarrow>
          float_literal (1 / 1000) < error_crc_ratio i
          \<and> error_crc_ratio i \<le> float_literal (1 / 100))
    \<and> (c = LOW \<longleftrightarrow>
          error_crc_ratio i \<le> float_literal (1 / 1000) \<and> 0 < input_errors i + crc_errors i)
    \<and> (c = GOOD \<longleftrightarrow>
          error_crc_ratio i \<le> float_literal (1 / 1000) \<and> input_errors i + crc_errors i \<le> 0)
    \<and> (float_literal (1 / 10) < error_crc_ratio i \<and> error_crc_ratio i \<le> float_literal 1
          \<longrightarrow> c = CRITICAL \<and> top_10_status i = HIGH)"
proof -
  have c: "c = classification i"
    using assms by (auto simp: print_complete_analysis_def split: if_splits)
  show ?thesis
    unfolding c classification_def top_10_status_def Let_def
    using literal_order by (auto simp: not_less)
qed

theorem complete_view_five_tiers_witness:
  "(interface_a, CRITICAL) \<in> set (print_complete_analysis [interface_a])
   \<and> float_literal (1 / 10) < error_crc_ratio interface_a
   \<and> error_crc_ratio interface_a \<le> float_literal 1
   \<and> top_10_status interface_a = HIGH"
proof -
  have ratio: "float_literal (1 / 10) < error_crc_ratio interface_a
               \<and> error_crc_ratio interface_a \<le> float_literal 1"
    by (simp add: interface_a_def float_literals)
  then have row: "(interface_a, CRITICAL) \<in> set (print_complete_analysis [interface_a])"
    by (simp add: print_complete_analysis_def all_sorted_def classification_def)
  show ?thesis
    using row ratio complete_view_five_tiers [OF row] by simp
qed

text \<open>
  C6.  The top error+CRC view is the first ten of the records with a positive
  \<open>error_crc_ratio\<close>, sorted in descending order of that ratio; the top output-error view is
  the first five of the records with a positive \<open>output_error_ratio\<close>, sorted in descending
  order of that ratio.  Descending order leaves the order of equal ratios open; the source's
  sort keeps them in input order, and so does every list \<open>ys\<close>, \<open>zs\<close> meant here.
\<close>

theorem top_views_filter_sort_take:
  assumes "mset ys = mset (filter (\<lambda>i. Finite 0 < error_crc_ratio i) interfaces)"
    and "sorted_wrt (\<lambda>a b. error_crc_ratio b \<le> error_crc_ratio a) ys"
    and "\<forall>k. filter (\<lambda>i. error_crc_ratio i = k) ys
             = filter (\<lambda>i. error_crc_ratio i = k)
                 (filter (\<lambda>i. Finite 0 < error_crc_ratio i) interfaces)"
    and "mset zs = mset (filter (\<lambda>i. Finite 0 < output_error_ratio i) interfaces)"
    and "sorted_wrt (\<lambda>a b. output_error_ratio b \<le> output_error_ratio a) zs"
    and "\<forall>k. filter (\<lambda>i. output_error_ratio i = k) zs
             = filter (\<lambda>i. output_error_ratio i = k)
                 (filter (\<lambda>i. Finite 0 < output_error_ratio i) interfaces)"
  shows "map (fst \<circ> snd) (print_top_10_analysis interfaces) = take 10 ys
    \<and> map (fst \<circ> snd) (print_top_5_output_errors interfaces) = take 5 zs"
proof -
  have ys: "sorted_reverse error_crc_ratio
              (filter (\<lambda>i. Finite 0 < error_crc_ratio i) interfaces) = ys"
    using assms(1-3) by (rule sorted_reverse_unique)
  have zs: "sorted_reverse output_error_ratio
              (filter (\<lambda>i. Finite 0 < output_error_ratio i) interfaces) = zs"
    using assms(4-6) by (rule sorted_reverse_unique)
  have drop_status: "map (fst \<circ> snd) (map (\<lambda>(k, i). (k, i, f i)) ps) = map snd ps"
    for f :: "InterfaceData \<Rightarrow> severity" and ps :: "(nat \<times> InterfaceData) list"
    by (induction ps) auto
  have drop_rank: "map snd (zip [1 ..< Suc (length xs)] xs) = xs" for xs :: "InterfaceData list"
    by (rule map_snd_zip) (simp del: upt_Suc)
  have rows:
    "map (fst \<circ> snd) (map (\<lambda>(k, i). (k, i, f i)) (zip [1 ..< Suc (length xs)] xs)) = xs"
    for f :: "InterfaceData \<Rightarrow> severity" and xs
    by (simp only: drop_status drop_rank)
  have "map (fst \<circ> snd) (print_top_10_analysis interfaces) = top_10 interfaces"
    unfolding print_top_10_analysis_def by (simp only: rows split: if_splits) (simp add: top_10_def)
  moreover have "map (fst \<circ> snd) (print_top_5_output_errors interfaces) = top_5_output interfaces"
    unfolding print_top_5_output_errors_def
    by (simp only: rows split: if_splits) (simp add: top_5_output_def)
  ultimately show ?thesis
    by (simp add: top_10_def top_5_output_def ys zs)
qed

theorem top_views_filter_sort_take_witness:
  "map (fst \<circ> snd) (print_top_10_analysis [interface_a, interface_b, interface_c])
     = take 10 [interface_b, interface_a, interface_c]
   \<and> map (fst \<circ> snd) (print_top_5_output_errors [interface_a, interface_b, interface_c])
       = take 5 [interface_b]"
proof (rule top_views_filter_sort_take)
  show "mset [interface_b, interface_a, interface_c]
          = mset (filter (\<lambda>i. Finite 0 < error_crc_ratio i)
                    [interface_a, interface_b, interface_c])"
    unfolding sample_sorted_positive by simp
  show "sorted_wrt (\<lambda>a b. error_crc_ratio b \<le> error_crc_ratio a)
          [interface_b, interface_a, interface_c]"
    by (simp add: interface_a_def interface_b_def interface_c_def)
  show "\<forall>k. filter (\<lambda>i. error_crc_ratio i = k) [interface_b, interface_a, interface_c]
          = filter (\<lambda>i. error_crc_ratio i = k)
              (filter (\<lambda>i. Finite 0 < error_crc_ratio i)
                 [interface_a, interface_b, interface_c])"
    unfolding sample_sorted_positive
    by (simp add: interface_a_def interface_b_def interface_c_def)
  show "mset [interface_b]
          = mset (filter (\<lambda>i. Finite 0 < output_error_ratio i)
                    [interface_a, interface_b, interface_c])"
    unfolding sample_output_positive by simp
  show "sorted_wrt (\<lambda>a b. output_error_ratio b \<le> output_error_ratio a) [interface_b]"
    by simp
  show "\<forall>k. filter (\<lambda>i. output_error_ratio i = k) [interface_b]
          = filter (\<lambda>i. output_error_ratio i = k)
              (filter (\<lambda>i. Finite 0 < output_error_ratio i)
                 [interface_a, interface_b, interface_c])"
    unfolding sample_output_positive by simp
qed

section \<open>The scan\<close>

lemma map_entry_ident [simp]: "AList.map_entry k (\<lambda>d. d) al = al"
  by (induction al) auto

lemma with_int_Inr:
  "with_int g f = Inr r \<longleftrightarrow> (\<exists>v. py_int g = Inr v \<and> f v = Inr r)"
  by (simp add: with_int_def split: sum.splits)

lemma digit_value_nonneg: "c \<in> set digits \<Longrightarrow> 0 \<le> digit_value c"
  by (auto simp: digits_def digit_value_def)

lemma py_int_nonneg: "py_int g = Inr v \<Longrightarrow> 0 \<le> v"
proof -
  have "0 \<le> foldl (\<lambda>n c. 10 * n + digit_value c) a g" if "0 \<le> a" "set g \<subseteq> set digits" for a
    using that by (induction g arbitrary: a) (simp_all add: digit_value_nonneg)
  then show "py_int g = Inr v \<Longrightarrow> 0 \<le> v"
    by (auto simp: py_int_def split: if_splits)
qed

lemma lift_update_Inr [simp]: "lift_update A (Inr f) = Inr (A f)"
  by (simp add: lift_update_def)

lemma lift_update_with_int [simp]:
  "lift_update A (with_int g k) = with_int g (\<lambda>v. lift_update A (k v))"
  by (simp add: lift_update_def with_int_def split: sum.split)

lemma lift_update_option [simp]:
  "lift_update A (case x of None \<Rightarrow> a | Some y \<Rightarrow> b y)
     = (case x of None \<Rightarrow> lift_update A a | Some y \<Rightarrow> lift_update A (b y))"
  by (simp split: option.split)

lemma lift_update_prod [simp]:
  "lift_update A (case p of (x, y) \<Rightarrow> c x y) = (case p of (x, y) \<Rightarrow> lift_update A (c x y))"
  by (simp split: prod.split)

lemma field_line_update:
  "field_line line cur s = lift_update (\<lambda>f. assign cur f s) (field_update line)"
  unfolding field_line_def field_update_def
  by (simp add: assign_def cong: option.case_cong)

lemma with_int_InrE:
  assumes "with_int g k = Inr f"
    and "\<And>v. 0 \<le> v \<Longrightarrow> k v = Inr f \<Longrightarrow> Q"
  shows Q
  using assms by (auto simp: with_int_Inr dest: py_int_nonneg)

lemma field_update_good: "field_update line = Inr f \<Longrightarrow> good_update f"
  unfolding field_update_def
  by (auto split: option.splits prod.splits elim!: with_int_InrE
      simp: good_update_def counters_nonneg_def)


subsection \<open>One line\<close>

lemma scan_line_header:
  "interface_match (strip l) = Some n \<Longrightarrow>
   scan_line l s =
     Inr \<lparr>current_interface = Some n,
          interface_stats = AList.update n (new_stats n) (interface_stats s)\<rparr>"
  by (simp add: scan_line_def)

lemma scan_line_other:
  "interface_match (strip l) = None \<Longrightarrow>
   scan_line l s =
     (case current_interface s of
        None \<Rightarrow> Inr s
      | Some cur \<Rightarrow>
          if cur \<noteq> [] \<and> cur \<in> fst ` set (interface_stats s)
          then lift_update (\<lambda>f. assign cur f s) (field_update (strip l))
          else Inr s)"
  by (simp add: scan_line_def field_line_update split: option.split)

lemma lift_update_eq_Inr:
  "lift_update A r = Inr x \<longleftrightarrow> (\<exists>f. r = Inr f \<and> x = A f)"
  by (auto simp: lift_update_def split: sum.splits)

lemma scan_line_cases:
  assumes "scan_line l s = Inr s'"
  obtains (header) n where "interface_match (strip l) = Some n"
      and "s' = \<lparr>current_interface = Some n,
                 interface_stats = AList.update n (new_stats n) (interface_stats s)\<rparr>"
    | (field) cur f where "interface_match (strip l) = None"
      and "current_interface s = Some cur" and "cur \<in> fst ` set (interface_stats s)"
      and "field_update (strip l) = Inr f" and "s' = assign cur f s"
    | (skip) "interface_match (strip l) = None" and "s' = s"
proof (cases "interface_match (strip l)")
  case None
  note other = scan_line_other [OF None, of s]
  show ?thesis
  proof (cases "current_interface s")
    case no_current: None
    with other assms have "s' = s"
      by simp
    with None show ?thesis
      by (rule skip)
  next
    case (Some cur)
    show ?thesis
    proof (cases "cur \<noteq> [] \<and> cur \<in> fst ` set (interface_stats s)")
      case True
      with other Some assms
      have "lift_update (\<lambda>f. assign cur f s) (field_update (strip l)) = Inr s'"
        by simp
      then obtain f where "field_update (strip l) = Inr f" and "s' = assign cur f s"
        by (auto simp: lift_update_eq_Inr)
      with None Some True show ?thesis
        by (intro field [of cur f]) simp_all
    next
      case False
      with other Some assms have "s' = s"
        by auto
      with None show ?thesis
        by (rule skip)
    qed
  qed
next
  case (Some n)
  with assms have "s' = \<lparr>current_interface = Some n,
                 interface_stats = AList.update n (new_stats n) (interface_stats s)\<rparr>"
    by (simp add: scan_line_header)
  with Some show ?thesis
    by (rule header)
qed

lemma set_update_cases:
  "(k', d) \<in> set (AList.update k v al) \<Longrightarrow> (k', d) = (k, v) \<or> (k', d) \<in> set al"
  by (induction al) (auto split: if_splits)

lemma set_map_entry_cases:
  "(k', d) \<in> set (AList.map_entry k f al) \<Longrightarrow>
   (k', d) \<in> set al \<or> (k' = k \<and> (\<exists>d0. (k, d0) \<in> set al \<and> d = f d0))"
  by (induction al) (auto split: if_splits)

lemma map_entry_keys [simp]: "map fst (AList.map_entry k f al) = map fst al"
  by (induction al) auto

lemma counters_nonneg_new_stats [simp]: "counters_nonneg (new_stats n)"
  by (simp add: counters_nonneg_def new_stats_def)

lemma name_new_stats [simp]: "name (new_stats n) = n"
  by (simp add: new_stats_def)

lemma scan_inv_initial: "scan_inv initial_state"
  by (simp add: scan_inv_def initial_state_def)

lemma scan_line_inv:
  assumes "scan_inv s" and "scan_line l s = Inr s'"
  shows "scan_inv s'"
  using assms(2)
proof (cases rule: scan_line_cases)
  case (header n)
  then show ?thesis
    using assms(1)
    by (auto simp: scan_inv_def AList.distinct_update AList.dom_update
        dest!: set_update_cases)
next
  case (field cur f)
  have "good_update f"
    using field(4) by (rule field_update_good)
  then show ?thesis
    using assms(1) field
    by (auto simp: scan_inv_def assign_def good_update_def AList.dom_map_entry
        dest!: set_map_entry_cases) 
next
  case skip
  then show ?thesis
    using assms(1) by simp
qed

lemma scan_lines_inv: "scan_inv s \<Longrightarrow> scan_lines ls s = Inr s' \<Longrightarrow> scan_inv s'"
  by (induction ls arbitrary: s) (auto split: sum.splits dest: scan_line_inv)

lemma scan_lines_append:
  "scan_lines (xs @ ys) s =
     (case scan_lines xs s of Inl e \<Rightarrow> Inl e | Inr s' \<Rightarrow> scan_lines ys s')"
  by (induction xs arbitrary: s) (auto split: sum.splits)

subsection \<open>The order of the keys\<close>

lemma scan_line_keys:
  assumes "scan_line l s = Inr s'"
  shows "map fst (interface_stats s') =
     (case interface_match (strip l) of
        Some n \<Rightarrow> add_key (map fst (interface_stats s)) n
      | None \<Rightarrow> map fst (interface_stats s))"
  using assms
  by (cases rule: scan_line_cases) (simp_all add: AList.update_keys add_key_def assign_def)

lemma scan_lines_keys:
  "scan_lines ls s = Inr s' \<Longrightarrow>
   map fst (interface_stats s') = foldl add_key (map fst (interface_stats s)) (header_names ls)"
proof (induction ls arbitrary: s)
  case Nil
  then show ?case by simp
next
  case (Cons l ls)
  from Cons.prems obtain s1 where l: "scan_line l s = Inr s1" and ls: "scan_lines ls s1 = Inr s'"
    by (auto split: sum.splits)
  show ?case
    using Cons.IH [OF ls] scan_line_keys [OF l] by (simp split: option.splits)
qed

lemma foldl_add_key:
  "foldl add_key ks hs = ks @ filter (\<lambda>n. n \<notin> set ks) (first_occurrences hs)"
proof (induction hs arbitrary: ks)
  case Nil
  then show ?case by simp
next
  case (Cons h hs)
  show ?case
  proof (cases "h \<in> set ks")
    case True
    then have "filter (\<lambda>n. n \<notin> set ks) (filter (\<lambda>y. y \<noteq> h) (first_occurrences hs))
                 = filter (\<lambda>n. n \<notin> set ks) (first_occurrences hs)"
      by (auto intro: filter_cong)
    moreover from True have "add_key ks h = ks"
      by (simp add: add_key_def)
    ultimately show ?thesis
      using True by (simp add: Cons.IH)
  next
    case False
    have "filter (\<lambda>n. n \<notin> set (ks @ [h])) (first_occurrences hs)
            = filter (\<lambda>n. n \<notin> set ks) (filter (\<lambda>y. y \<noteq> h) (first_occurrences hs))"
      by (auto intro: filter_cong)
    moreover from False have "add_key ks h = ks @ [h]"
      by (simp add: add_key_def)
    ultimately show ?thesis
      using False by (simp add: Cons.IH)
  qed
qed

lemma scan_keys_first_occurrences:
  "scan_lines ls initial_state = Inr s \<Longrightarrow>
   map fst (interface_stats s) = first_occurrences (header_names ls)"
  using scan_lines_keys [of ls initial_state s]
  by (simp add: foldl_add_key initial_state_def)


section \<open>The sample text\<close>

lemma scan_sample: "scan_lines sample_lines initial_state = Inr sample_state"
  by code_simp

lemma header_names_sample: "header_names sample_lines = [''Gi0/1'', ''Gi0/2'', ''Gi0/1'']"
  by code_simp

section \<open>The metrics engine\<close>

lemma guarded_ratio_Inr:
  assumes "guarded_ratio n d = Inr r"
  shows "(0 < d \<longrightarrow> r = float_mul (round_binary64 (of_int n / of_int d)) 100)
    \<and> (d \<le> 0 \<longrightarrow> r = Finite 0)"
  using assms by (auto simp: guarded_ratio_def py_truediv_def split: if_splits)

lemma guarded_ratio_Inl:
  assumes "guarded_ratio n d = Inl e"
  shows "e = OverflowError \<and> 0 < d \<and> double_overflows (of_int n / of_int d)"
  using assms by (auto simp: guarded_ratio_def py_truediv_def split: if_splits)

lemma interface_data_Inr:
  assumes "interface_data d = Inr i"
  shows "name i = name d \<and> input_packets i = input_packets d
    \<and> output_packets i = output_packets d \<and> input_errors i = input_errors d
    \<and> crc_errors i = crc_errors d \<and> output_errors i = output_errors d
    \<and> guarded_ratio (input_errors d + crc_errors d) (input_packets d) = Inr (error_crc_ratio i)
    \<and> guarded_ratio (input_errors d) (input_packets d) = Inr (error_ratio i)
    \<and> guarded_ratio (crc_errors d) (input_packets d) = Inr (crc_ratio i)
    \<and> guarded_ratio (output_errors d) (output_packets d) = Inr (output_error_ratio i)"
  using assms by (auto simp: interface_data_def Let_def split: sum.splits)

lemma interface_data_Inl: "interface_data d = Inl e \<Longrightarrow> e = OverflowError"
  by (auto simp: interface_data_def Let_def split: sum.splits dest: guarded_ratio_Inl)

lemma process_stats_skip:
  "\<not> passes d \<Longrightarrow> process_stats ((n, d) # rest) acc = process_stats rest acc"
  by (auto simp: passes_def Let_def)

lemma process_stats_keep:
  "passes d \<Longrightarrow>
   process_stats ((n, d) # rest) acc =
     (case interface_data d of Inl e \<Rightarrow> Inl e | Inr i \<Rightarrow> process_stats rest (acc @ [i]))"
  by (auto simp: passes_def Let_def)

declare process_stats.simps(2) [simp del]

lemma process_stats_Inr:
  "process_stats al acc = Inr out \<Longrightarrow>
   \<exists>new. out = acc @ new
     \<and> list_all2 (\<lambda>d i. interface_data d = Inr i) (filter passes (map snd al)) new"
proof (induction al arbitrary: acc)
  case Nil
  then show ?case by simp
next
  case (Cons a al)
  obtain n d where a: "a = (n, d)"
    by (cases a)
  show ?case
  proof (cases "passes d")
    case True
    with Cons.prems a obtain i where i: "interface_data d = Inr i"
      and rest: "process_stats al (acc @ [i]) = Inr out"
      by (auto simp: process_stats_keep split: sum.splits)
    from Cons.IH [OF rest] obtain new where "out = (acc @ [i]) @ new"
      and "list_all2 (\<lambda>d i. interface_data d = Inr i) (filter passes (map snd al)) new"
      by blast
    with True a i show ?thesis
      by (intro exI [of _ "i # new"]) simp
  next
    case False
    with Cons.prems a have "process_stats al acc = Inr out"
      by (simp add: process_stats_skip)
    from Cons.IH [OF this] False a show ?thesis
      by simp
  qed
qed

lemma process_stats_Inl: "process_stats al acc = Inl e \<Longrightarrow> e = OverflowError"
proof (induction al arbitrary: acc)
  case Nil
  then show ?case by simp
next
  case (Cons a al)
  obtain n d where a: "a = (n, d)"
    by (cases a)
  show ?case
  proof (cases "passes d")
    case True
    with Cons.prems a show ?thesis
      by (auto simp: process_stats_keep split: sum.splits
          dest: interface_data_Inl Cons.IH)
  next
    case False
    with Cons.prems a show ?thesis
      by (auto simp: process_stats_skip dest: Cons.IH)
  qed
qed


lemma list_all2_right: "list_all2 R xs ys \<Longrightarrow> y \<in> set ys \<Longrightarrow> \<exists>x \<in> set xs. R x y"
  by (induction rule: list_all2_induct) auto

lemma passes_a: "passes stats_a"
  by (simp add: passes_def stats_a_def new_stats_def)

lemma passes_b: "passes stats_b"
  by (simp add: passes_def stats_b_def new_stats_def)

lemma process_sample:
  "process_stats [(''Gi0/1'', stats_a), (''Gi0/2'', stats_b)] [] = Inr [interface_a, interface_b]"
  by (simp add: process_stats_keep passes_a passes_b interface_data_a interface_data_b)

text \<open>
  C3.  Every record of the metrics engine's output has its four ratios by the guarded formula:
  \<open>(errors / packets) * 100\<close> in float arithmetic when the packet count is positive, and \<open>0\<close>
  when it is zero; no run of the engine ends in a division by zero.
\<close>

theorem metrics_ratios:
  assumes "process_stats al [] = Inr interfaces" and "i \<in> set interfaces"
  shows "(0 < input_packets i \<longrightarrow>
            error_crc_ratio i
              = float_mul (round_binary64
                  (of_int (input_errors i + crc_errors i) / of_int (input_packets i))) 100
          \<and> error_ratio i
              = float_mul (round_binary64
                  (of_int (input_errors i) / of_int (input_packets i))) 100
          \<and> crc_ratio i
              = float_mul (round_binary64
                  (of_int (crc_errors i) / of_int (input_packets i))) 100)
    \<and> (input_packets i = 0 \<longrightarrow>
          error_crc_ratio i = Finite 0 \<and> error_ratio i = Finite 0 \<and> crc_ratio i = Finite 0)
    \<and> (0 < output_packets i \<longrightarrow>
          output_error_ratio i
            = float_mul (round_binary64
                (of_int (output_errors i) / of_int (output_packets i))) 100)
    \<and> (output_packets i = 0 \<longrightarrow> output_error_ratio i = Finite 0)
    \<and> (\<forall>al' acc. process_stats al' acc \<noteq> Inl ZeroDivisionError)"
proof -
  from process_stats_Inr [OF assms(1)]
  have "list_all2 (\<lambda>d i. interface_data d = Inr i) (filter passes (map snd al)) interfaces"
    by simp
  from list_all2_right [OF this assms(2)] obtain d where "interface_data d = Inr i"
    by blast
  note d = interface_data_Inr [OF this]
  have "\<forall>al' acc. process_stats al' acc \<noteq> Inl ZeroDivisionError"
    using process_stats_Inl by fastforce
  moreover from d have "guarded_ratio (input_errors i + crc_errors i) (input_packets i)
      = Inr (error_crc_ratio i)"
    by simp
  note guarded_ratio_Inr [OF this]
  moreover from d have "guarded_ratio (input_errors i) (input_packets i) = Inr (error_ratio i)"
    by simp
  note guarded_ratio_Inr [OF this]
  moreover from d have "guarded_ratio (crc_errors i) (input_packets i) = Inr (crc_ratio i)"
    by simp
  note guarded_ratio_Inr [OF this]
  moreover from d
  have "guarded_ratio (output_errors i) (output_packets i) = Inr (output_error_ratio i)"
    by simp
  note guarded_ratio_Inr [OF this]
  ultimately show ?thesis
    by simp
qed

theorem metrics_ratios_witness:
  "process_stats [(''Gi0/1'', stats_a), (''Gi0/2'', stats_b)] [] = Inr [interface_a, interface_b]
   \<and> interface_a \<in> set [interface_a, interface_b]
   \<and> 0 < input_packets interface_a
   \<and> error_crc_ratio interface_a = float_mul (round_binary64 (of_int (1 + 0) / of_int 200)) 100
   \<and> output_packets interface_a = 0
   \<and> output_error_ratio interface_a = Finite 0"
proof -
  have mem: "interface_a \<in> set [interface_a, interface_b]"
    by simp
  have fields: "input_packets interface_a = 200 \<and> input_errors interface_a = 1
      \<and> crc_errors interface_a = 0 \<and> output_packets interface_a = 0"
    by (simp add: interface_a_def)
  show ?thesis
    using metrics_ratios [OF process_sample mem] process_sample fields by simp
qed


section \<open>More on the scan\<close>

lemma scan_line_agree:
  assumes cur: "current_interface s = current_interface t"
    and rec: "map_of (interface_stats s) n = map_of (interface_stats t) n"
    and inv: "scan_inv s" "scan_inv t"
    and step: "scan_line l s = Inr s'"
  shows "\<exists>t'. scan_line l t = Inr t' \<and> current_interface s' = current_interface t'
           \<and> map_of (interface_stats s') n = map_of (interface_stats t') n"
proof (cases "interface_match (strip l)")
  case (Some m)
  with step rec show ?thesis
    by (auto simp: scan_line_header AList.update_conv')
next
  case None
  note other = scan_line_other [OF None]
  show ?thesis
  proof (cases "current_interface s")
    case no_current: None
    from other [of s] no_current have "scan_line l s = Inr s"
      by simp
    with step have "s' = s"
      by simp
    moreover from no_current cur have "current_interface t = None"
      by simp
    with other [of t] have "scan_line l t = Inr t"
      by simp
    ultimately show ?thesis
      using cur rec by simp
  next
    case (Some c)
    from cur Some have tc: "current_interface t = Some c"
      by simp
    from inv Some cur have keys: "c \<in> fst ` set (interface_stats s)"
      "c \<in> fst ` set (interface_stats t)"
      by (auto simp: scan_inv_def)
    show ?thesis
    proof (cases "c = []")
      case True
      from other [of s] Some True have "scan_line l s = Inr s"
        by simp
      with step have "s' = s"
        by simp
      moreover from other [of t] tc True have "scan_line l t = Inr t"
        by simp
      ultimately show ?thesis
        using cur rec by simp
    next
      case False
      with other [of s] Some keys
      have "scan_line l s = lift_update (\<lambda>f. assign c f s) (field_update (strip l))"
        by simp
      with step have "lift_update (\<lambda>f. assign c f s) (field_update (strip l)) = Inr s'"
        by simp
      then obtain f where f: "field_update (strip l) = Inr f"
        and s': "s' = assign c f s"
        by (auto simp: lift_update_eq_Inr)
      from False other [of t] tc keys f have "scan_line l t = Inr (assign c f t)"
        by simp
      moreover have "map_of (interface_stats (assign c f s)) n
            = map_of (interface_stats (assign c f t)) n"
        using rec by (cases "n = c") (simp_all add: assign_def AList.map_of_map_entry)
      moreover have "current_interface (assign c f s) = current_interface (assign c f t)"
        using cur by (simp add: assign_def)
      ultimately show ?thesis
        using s' by blast
    qed
  qed
qed

lemma scan_lines_agree:
  assumes "current_interface s = current_interface t"
    and "map_of (interface_stats s) n = map_of (interface_stats t) n"
    and "scan_inv s" "scan_inv t"
    and "scan_lines ls s = Inr s'"
  shows "\<exists>t'. scan_lines ls t = Inr t'
           \<and> map_of (interface_stats s') n = map_of (interface_stats t') n"
  using assms
proof (induction ls arbitrary: s t)
  case Nil
  then show ?case by simp
next
  case (Cons l ls)
  from Cons.prems(5) obtain s1 where l: "scan_line l s = Inr s1"
    and ls: "scan_lines ls s1 = Inr s'"
    by (auto split: sum.splits)
  from scan_line_agree [OF Cons.prems(1-4) l] obtain t1 where t1: "scan_line l t = Inr t1"
    and cur: "current_interface s1 = current_interface t1"
    and rec: "map_of (interface_stats s1) n = map_of (interface_stats t1) n"
    by blast
  have "scan_inv s1" "scan_inv t1"
    using Cons.prems(3,4) l t1 by (auto dest: scan_line_inv)
  from Cons.IH [OF cur rec this ls] t1 show ?case
    by auto
qed

lemma scan_lines_keys_grow:
  "scan_lines ls s = Inr s' \<Longrightarrow> fst ` set (interface_stats s) \<subseteq> fst ` set (interface_stats s')"
proof -
  assume "scan_lines ls s = Inr s'"
  from scan_lines_keys [OF this]
  have "set (map fst (interface_stats s)) \<subseteq> set (map fst (interface_stats s'))"
    by (simp add: foldl_add_key)
  then show ?thesis
    by simp
qed

text \<open>
  C9.  A header line never raises and stores the all-zero record under its name, whatever
  was stored there.  So when a name has a second header line, the record that the final
  mapping holds for it is the one that the scan builds from that header line on: nothing of
  what the lines before it had accumulated is left.
\<close>

theorem duplicate_header_last_wins:
  assumes "interface_match (strip h) = Some n"
    and "scan_lines (pre @ h # post) initial_state = Inr s"
  shows "(\<forall>s0. \<exists>s1. scan_line h s0 = Inr s1 \<and> current_interface s1 = Some n
             \<and> map_of (interface_stats s1) n = Some (new_stats n))
    \<and> (\<exists>t. scan_lines (h # post) initial_state = Inr t
             \<and> map_of (interface_stats s) n = map_of (interface_stats t) n
             \<and> map_of (interface_stats t) n \<noteq> None)"
proof -
  let ?after = "\<lambda>s0. \<lparr>current_interface = Some n,
      interface_stats = AList.update n (new_stats n) (interface_stats s0)\<rparr>"
  have header: "scan_line h s0 = Inr (?after s0)" for s0
    using assms(1) by (rule scan_line_header)
  from assms(2) obtain s0 where pre: "scan_lines pre initial_state = Inr s0"
    and post: "scan_lines post (?after s0) = Inr s"
    by (auto simp: scan_lines_append header split: sum.splits)
  have inv0: "scan_inv s0"
    using scan_inv_initial pre by (rule scan_lines_inv)
  have inv: "scan_inv (?after s0)" "scan_inv (?after initial_state)"
    using inv0 scan_inv_initial header by (auto intro: scan_line_inv)
  have "current_interface (?after s0) = current_interface (?after initial_state)"
    by simp
  moreover have "map_of (interface_stats (?after s0)) n
      = map_of (interface_stats (?after initial_state)) n"
    by (simp add: AList.update_conv')
  ultimately obtain t where t: "scan_lines post (?after initial_state) = Inr t"
    and rec: "map_of (interface_stats s) n = map_of (interface_stats t) n"
    using scan_lines_agree [OF _ _ inv post] by blast
  have "n \<in> fst ` set (interface_stats (?after initial_state))"
    by (simp add: AList.dom_update)
  with scan_lines_keys_grow [OF t] have "n \<in> fst ` set (interface_stats t)"
    by blast
  then have "map_of (interface_stats t) n \<noteq> None"
    by (simp add: map_of_eq_None_iff)
  moreover have "scan_lines (h # post) initial_state = Inr t"
    using t by (simp add: header)
  moreover have "\<forall>s0. \<exists>s1. scan_line h s0 = Inr s1 \<and> current_interface s1 = Some n
             \<and> map_of (interface_stats s1) n = Some (new_stats n)"
    by (simp add: header AList.update_conv')
  ultimately show ?thesis
    using rec by blast
qed

lemma sample_header_match: "interface_match (strip sample_header) = Some ''Gi0/1''"
  by code_simp

theorem duplicate_header_last_wins_witness:
  "interface_match (strip sample_header) = Some ''Gi0/1''
   \<and> scan_lines (sample_pre @ sample_header # sample_post) initial_state = Inr sample_state
   \<and> (\<exists>t. scan_lines (sample_header # sample_post) initial_state = Inr t
          \<and> map_of (interface_stats sample_state) ''Gi0/1'' = map_of (interface_stats t) ''Gi0/1''
          \<and> map_of (interface_stats t) ''Gi0/1'' \<noteq> None)
   \<and> map_of (interface_stats sample_state) ''Gi0/1'' = Some stats_a"
proof -
  have scan: "scan_lines (sample_pre @ sample_header # sample_post) initial_state
      = Inr sample_state"
    using scan_sample by (simp add: sample_lines_def)
  have "map_of (interface_stats sample_state) ''Gi0/1'' = Some stats_a"
    by (simp add: sample_state_def)
  then show ?thesis
    using duplicate_header_last_wins [OF sample_header_match scan] sample_header_match scan
    by blast
qed


section \<open>The output of \<open>parse_interface_data\<close>\<close>

lemma parse_scanned:
  assumes "fs filename = Inr lines" and "scan_lines lines initial_state = Inr s"
  shows "parse_interface_data fs filename =
     (case process_stats (interface_stats s) [] of
        Inl e \<Rightarrow> handler filename e
      | Inr interfaces \<Rightarrow> ([], interfaces))"
  using assms by (simp add: parse_interface_data_def)





lemma sample_parse:
  "parse_interface_data (\<lambda>f. Inr sample_lines) ''int_error.txt''
     = ([], [interface_a, interface_b])"
  by (simp add: parse_interface_data_def scan_sample sample_state_def process_sample)


section \<open>A text with a count that is too large for a float\<close>

lemma give_back_None:
  assumes "k rest = None" and "\<forall>c \<in> set run. \<forall>r. k (c # r) = None"
  shows "give_back k run rest = None"
  using assms by (induction run arbitrary: rest) simp_all

lemma match_here_Lit_other:
  assumes "l \<noteq> []" and "c \<noteq> hd l"
  shows "match_here (Lit l # ts) (c # r) = None"
proof -
  have "take (length l) (c # r) \<noteq> l"
    using assms by (cases l) auto
  then show ?thesis
    by simp
qed

lemma match_here_run_None:
  assumes "set ds \<subseteq> set cs" and "l \<noteq> []" and "hd l \<notin> set cs"
    and "rest = [] \<or> hd rest \<notin> set cs" and "take (length l) rest \<noteq> l"
  shows "match_here (Many1 cs # Lit l # ts) (ds @ rest) = None"
proof -
  have rest: "takeWhile (\<lambda>c. c \<in> set cs) rest = []" "dropWhile (\<lambda>c. c \<in> set cs) rest = rest"
    using assms(4) by (cases rest; simp)+
  have "takeWhile (\<lambda>c. c \<in> set cs) (ds @ rest) = ds"
    using assms(1) rest by (simp add: takeWhile_append2 subset_iff)
  moreover have "dropWhile (\<lambda>c. c \<in> set cs) (ds @ rest) = rest"
    using assms(1) rest by (simp add: dropWhile_append2 subset_iff)
  moreover have "give_back (match_here (Lit l # ts)) (rev ds) rest = None"
  proof (rule give_back_None)
    show "match_here (Lit l # ts) rest = None"
      using assms(5) by simp
    show "\<forall>c \<in> set (rev ds). \<forall>r. match_here (Lit l # ts) (c # r) = None"
    proof (intro ballI allI)
      fix c r
      assume "c \<in> set (rev ds)"
      with assms(1,3) have "c \<noteq> hd l"
        by auto
      with assms(2) show "match_here (Lit l # ts) (c # r) = None"
        by (rule match_here_Lit_other)
    qed
  qed
  ultimately show ?thesis
    by simp
qed

lemma re_search_skip_run:
  assumes "set ds \<subseteq> set cs" and "l \<noteq> []" and "hd l \<notin> set cs"
    and "rest = [] \<or> hd rest \<notin> set cs" and "take (length l) rest \<noteq> l"
  shows "re_search (Many1 cs # Lit l # ts) (ds @ rest) = re_search (Many1 cs # Lit l # ts) rest"
  using assms(1)
proof (induction ds)
  case Nil
  then show ?case by simp
next
  case (Cons c ds)
  then have "set (c # ds) \<subseteq> set cs" and ds: "set ds \<subseteq> set cs"
    by simp_all
  from match_here_run_None [OF this(1) assms(2-5)]
  have "match_here (Many1 cs # Lit l # ts) ((c # ds) @ rest) = None" .
  then have "re_search (Many1 cs # Lit l # ts) ((c # ds) @ rest)
      = re_search (Many1 cs # Lit l # ts) (ds @ rest)"
    by (subst re_search.simps) simp
  with Cons.IH [OF ds] show ?case
    by simp
qed

lemma re_search_skip_other:
  assumes "l \<noteq> []" and "hd l \<notin> set ds"
  shows "re_search (Lit l # ts) (ds @ rest) = re_search (Lit l # ts) rest"
  using assms(2)
proof (induction ds)
  case Nil
  then show ?case by simp
next
  case (Cons c ds)
  then have "c \<noteq> hd l" and ds: "hd l \<notin> set ds"
    by auto
  from match_here_Lit_other [OF assms(1) this(1)]
  have "match_here (Lit l # ts) ((c # ds) @ rest) = None"
    by simp
  then have "re_search (Lit l # ts) ((c # ds) @ rest) = re_search (Lit l # ts) (ds @ rest)"
    by (subst re_search.simps) simp
  with Cons.IH [OF ds] show ?case
    by simp
qed

lemma huge_digits_digits: "set huge_digits \<subseteq> set digits"
  by (simp add: huge_digits_def digits_def)

lemma huge_strip: "strip huge_line = huge_line"
  by code_simp

lemma huge_interface_match: "interface_match huge_line = None"
  by code_simp

lemma huge_input_rate_match: "input_rate_match huge_line = None"
proof -
  have "re_search [Lit ''5 minute input rate'', Lazy_any, Many1 digits, Lit '' packets/sec'']
          (huge_digits @ huge_tail)
      = re_search [Lit ''5 minute input rate'', Lazy_any, Many1 digits, Lit '' packets/sec'']
          huge_tail"
    by (rule re_search_skip_other) (simp_all add: huge_digits_def)
  also have "\<dots> = None"
    by code_simp
  finally show ?thesis
    by (simp add: input_rate_match_def huge_line_def)
qed

lemma huge_output_rate_match: "output_rate_match huge_line = None"
proof -
  have "re_search [Lit ''5 minute output rate'', Lazy_any, Many1 digits, Lit '' packets/sec'']
          (huge_digits @ huge_tail)
      = re_search [Lit ''5 minute output rate'', Lazy_any, Many1 digits, Lit '' packets/sec'']
          huge_tail"
    by (rule re_search_skip_other) (simp_all add: huge_digits_def)
  also have "\<dots> = None"
    by code_simp
  finally show ?thesis
    by (simp add: output_rate_match_def huge_line_def)
qed

lemma huge_input_packets_match: "input_packets_match huge_line = None"
proof -
  have "re_search [Many1 digits, Lit '' packets input'', Lazy_any, Many1 digits,
          Lit '' total input drops''] (huge_digits @ huge_tail)
      = re_search [Many1 digits, Lit '' packets input'', Lazy_any, Many1 digits,
          Lit '' total input drops''] huge_tail"
    by (rule re_search_skip_run [OF huge_digits_digits]) (simp_all add: digits_def huge_tail_def)
  also have "\<dots> = None"
    by code_simp
  finally show ?thesis
    by (simp add: input_packets_match_def huge_line_def)
qed

lemma huge_output_packets_match: "output_packets_match huge_line = None"
proof -
  have "re_search [Many1 digits, Lit '' packets output'', Lazy_any, Many1 digits,
          Lit '' total output drops''] (huge_digits @ huge_tail)
      = re_search [Many1 digits, Lit '' packets output'', Lazy_any, Many1 digits,
          Lit '' total output drops''] huge_tail"
    by (rule re_search_skip_run [OF huge_digits_digits]) (simp_all add: digits_def huge_tail_def)
  also have "\<dots> = None"
    by code_simp
  finally show ?thesis
    by (simp add: output_packets_match_def huge_line_def)
qed

lemma huge_error_match:
  "error_match huge_line = Some (huge_digits, ''0'', ''0'', ''0'', ''0'', ''0'')"
  by code_simp

lemma foldl_zeros:
  "foldl (\<lambda>n c. 10 * n + digit_value c) a (replicate k (CHR ''0'')) = a * 10 ^ k"
  by (induction k arbitrary: a) (simp_all add: digit_value_def)

lemma py_int_huge: "py_int huge_digits = Inr huge_count"
proof -
  have two: "digit_value (CHR ''2'') = 2"
    by (simp add: digit_value_def)
  have "foldl (\<lambda>n c. 10 * n + digit_value c) 0 huge_digits
      = (10 * 0 + digit_value (CHR ''2'')) * 10 ^ 308"
    by (simp only: huge_digits_def foldl_Cons foldl_zeros)
  also have "\<dots> = huge_count"
    by (simp only: two huge_count_def mult_zero_right add_0)
  finally have val: "foldl (\<lambda>n c. 10 * n + digit_value c) 0 huge_digits = huge_count" .
  have ok: "\<not> (huge_digits = [] \<or> (\<exists>c \<in> set huge_digits. c \<notin> set digits))"
    using huge_digits_digits by (auto simp: huge_digits_def)
  have len: "\<not> int_max_str_digits < int (length huge_digits)"
    by (simp add: huge_digits_def int_max_str_digits_def)
  show ?thesis
    unfolding py_int_def val by (simp only: ok len if_False)
qed

lemma py_int_0: "py_int ''0'' = Inr 0"
  by code_simp


lemma huge_field_update:
  "field_update huge_line
     = Inr (\<lambda>d. d\<lparr>input_errors := huge_count, crc_errors := 0, frame_errors := 0,
                    overrun_errors := 0, ignored_errors := 0, abort_errors := 0\<rparr>)"
  by (simp add: field_update_def huge_input_rate_match huge_output_rate_match
      huge_input_packets_match huge_output_packets_match huge_error_match
      with_int_def py_int_huge py_int_0)

lemma scan_huge_head:
  "scan_lines huge_head initial_state
     = Inr \<lparr>current_interface = Some ''Gi0/1'',
            interface_stats =
              [(''Gi0/1'', (new_stats ''Gi0/1'')\<lparr>input_packets := 1, input_rate := 100000\<rparr>)]\<rparr>"
  by code_simp

lemma scan_huge: "scan_lines huge_lines initial_state = Inr huge_state"
proof -
  have "scan_line huge_line
      \<lparr>current_interface = Some ''Gi0/1'',
       interface_stats =
         [(''Gi0/1'', (new_stats ''Gi0/1'')\<lparr>input_packets := 1, input_rate := 100000\<rparr>)]\<rparr>
      = Inr huge_state"
    by (simp add: scan_line_other huge_strip huge_interface_match huge_field_update
        assign_def huge_state_def stats_huge_def new_stats_def)
  then show ?thesis
    by (simp add: huge_lines_def scan_lines_append scan_huge_head)
qed

lemma huge_fields:
  "input_packets stats_huge = 1" "output_packets stats_huge = 0"
  "input_rate stats_huge = 100000" "output_rate stats_huge = 0"
  "input_errors stats_huge = huge_count" "crc_errors stats_huge = 0"
  unfolding stats_huge_def new_stats_def by simp_all

lemma huge_overflows: "interface_data stats_huge = Inl OverflowError"
proof -
  have "double_overflows (of_int (huge_count + 0) / of_int 1)"
    by (simp add: double_overflows_def huge_count_def)
  then have "guarded_ratio (huge_count + 0) 1 = Inl OverflowError"
    by (simp only: guarded_ratio_pos zero_less_one if_True)
  then show ?thesis
    unfolding interface_data_def Let_def huge_fields by simp
qed

lemma passes_huge: "passes stats_huge"
  unfolding passes_def huge_fields by simp




section \<open>The totals of the aggregator\<close>




section \<open>Exceptions and unrecognised lines\<close>

lemma field_update_unrecognised:
  assumes "input_rate_match line = None" and "output_rate_match line = None"
    and "input_packets_match line = None" and "output_packets_match line = None"
    and "error_match line = None" and "output_error_match line = None"
  shows "field_update line = Inr (\<lambda>d. d)"
  using assms by (simp add: field_update_def)

lemma assign_ident [simp]: "assign cur (\<lambda>d. d) s = s"
  by (simp add: assign_def)

lemma py_int_Inl: "py_int g = Inl e \<Longrightarrow> e = ValueError"
  by (auto simp: py_int_def split: if_splits)

lemma with_int_InlE:
  assumes "with_int g k = Inl e"
  obtains "e = ValueError" | v where "k v = Inl e"
  using assms by (auto simp: with_int_def split: sum.splits dest: py_int_Inl)

lemma field_update_Inl: "field_update line = Inl e \<Longrightarrow> e = ValueError"
  unfolding field_update_def
  by (auto split: option.splits prod.splits elim!: with_int_InlE)

lemma lift_update_eq_Inl:
  "lift_update A r = Inl e \<longleftrightarrow> r = Inl e"
  "Inl e = lift_update A r \<longleftrightarrow> r = Inl e"
  by (auto simp: lift_update_def split: sum.splits)

lemma scan_line_Inl: "scan_line l s = Inl e \<Longrightarrow> e = ValueError"
proof (cases "interface_match (strip l)")
  case None
  assume "scan_line l s = Inl e"
  with scan_line_other [OF None, of s] have "field_update (strip l) = Inl e"
    by (auto simp: lift_update_eq_Inl split: option.splits if_splits)
  then show ?thesis
    by (rule field_update_Inl)
next
  case (Some n)
  assume "scan_line l s = Inl e"
  with Some show ?thesis
    by (simp add: scan_line_header)
qed

lemma scan_lines_Inl: "scan_lines ls s = Inl e \<Longrightarrow> e = ValueError"
  by (induction ls arbitrary: s) (auto split: sum.splits dest: scan_line_Inl)


lemma parse_outcomes:
  "(\<exists>interfaces. parse_interface_data fs filename = ([], interfaces))
   \<or> parse_interface_data fs filename = ([File_not_found filename], [])
   \<or> (\<exists>e. parse_interface_data fs filename = ([Error_parsing_file e], []))"
  by (auto simp: parse_interface_data_def handler_def split: sum.splits)

text \<open>
  C8.  When the file is missing, the function prints \<open>Error: File ... not found\<close> and returns
  the empty list; when the read raises any other exception, or the scan or the metrics engine
  raises one, it prints \<open>Error parsing file: ...\<close> and returns the empty list.  In every case
  the function returns: either a list without a message, or one of the two messages and the
  empty list.  A line that matches none of the patterns leaves the state of the scan as it is
  and raises nothing.
\<close>

theorem parse_never_fails:
  "(fs filename = Inl FileNotFoundError \<longrightarrow>
      parse_interface_data fs filename = ([File_not_found filename], []))
   \<and> (fs filename = Inl e \<and> e \<noteq> FileNotFoundError \<longrightarrow>
        parse_interface_data fs filename = ([Error_parsing_file e], []))
   \<and> (fs filename = Inr lines
        \<and> (scan_lines lines initial_state = Inl e'
             \<or> (\<exists>s'. scan_lines lines initial_state = Inr s'
                      \<and> process_stats (interface_stats s') [] = Inl e')) \<longrightarrow>
        parse_interface_data fs filename = ([Error_parsing_file e'], []))
   \<and> ((\<exists>interfaces. parse_interface_data fs filename = ([], interfaces))
        \<or> parse_interface_data fs filename = ([File_not_found filename], [])
        \<or> (\<exists>x. parse_interface_data fs filename = ([Error_parsing_file x], [])))
   \<and> (interface_match (strip l) = None \<and> input_rate_match (strip l) = None
        \<and> output_rate_match (strip l) = None \<and> input_packets_match (strip l) = None
        \<and> output_packets_match (strip l) = None \<and> error_match (strip l) = None
        \<and> output_error_match (strip l) = None \<longrightarrow> scan_line l s = Inr s)"
proof -
  have line: "scan_line l s = Inr s"
    if "interface_match (strip l) = None" and "field_update (strip l) = Inr (\<lambda>d. d)"
    using that by (simp add: scan_line_other split: option.splits)
  have read: "parse_interface_data fs filename = handler filename x" if "fs filename = Inl x" for x
    using that by (simp add: parse_interface_data_def)
  have scan: "parse_interface_data fs filename = ([Error_parsing_file e'], [])"
    if "fs filename = Inr lines" and "scan_lines lines initial_state = Inl e'"
  proof -
    from that(2) have "e' = ValueError"
      by (rule scan_lines_Inl)
    with that show ?thesis
      by (simp add: parse_interface_data_def handler_def)
  qed
  have engine: "parse_interface_data fs filename = ([Error_parsing_file e'], [])"
    if "fs filename = Inr lines" and "scan_lines lines initial_state = Inr s'"
      and "process_stats (interface_stats s') [] = Inl e'" for s'
  proof -
    from that(3) have "e' = OverflowError"
      by (rule process_stats_Inl)
    with that show ?thesis
      by (simp add: parse_interface_data_def handler_def)
  qed
  show ?thesis
    using parse_outcomes [of fs filename] line read scan engine
    by (auto simp: handler_def field_update_unrecognised)
qed

lemma unrecognised_line:
  "interface_match (strip ''  MTU 1500 bytes'') = None
   \<and> input_rate_match (strip ''  MTU 1500 bytes'') = None
   \<and> output_rate_match (strip ''  MTU 1500 bytes'') = None
   \<and> input_packets_match (strip ''  MTU 1500 bytes'') = None
   \<and> output_packets_match (strip ''  MTU 1500 bytes'') = None
   \<and> error_match (strip ''  MTU 1500 bytes'') = None
   \<and> output_error_match (strip ''  MTU 1500 bytes'') = None"
  by code_simp

theorem parse_never_fails_witness:
  "parse_interface_data (\<lambda>f. Inl FileNotFoundError) ''int_error.txt''
     = ([File_not_found ''int_error.txt''], [])
   \<and> OSError \<noteq> FileNotFoundError
   \<and> parse_interface_data (\<lambda>f. Inl OSError) ''int_error.txt'' = ([Error_parsing_file OSError], [])
   \<and> scan_lines huge_lines initial_state = Inr huge_state
   \<and> process_stats (interface_stats huge_state) [] = Inl OverflowError
   \<and> parse_interface_data (\<lambda>f. Inr huge_lines) ''int_error.txt''
        = ([Error_parsing_file OverflowError], [])
   \<and> interface_match (strip ''  MTU 1500 bytes'') = None
   \<and> scan_line ''  MTU 1500 bytes'' sample_state = Inr sample_state"
proof -
  have engine: "process_stats (interface_stats huge_state) [] = Inl OverflowError"
    by (simp add: huge_state_def process_stats_keep passes_huge huge_overflows)
  show ?thesis
    using parse_never_fails [where fs = "\<lambda>f. Inl FileNotFoundError"
        and filename = "''int_error.txt''" and e = FileNotFoundError
        and l = "''  MTU 1500 bytes''" and s = sample_state]
      parse_never_fails [where fs = "\<lambda>f. Inl OSError" and filename = "''int_error.txt''"
        and e = OSError]
      parse_never_fails [where fs = "\<lambda>f. Inr huge_lines" and filename = "''int_error.txt''"
        and lines = huge_lines and e' = OverflowError]
      unrecognised_line scan_huge engine
    by simp
qed

section \<open>The order of the output\<close>

lemma list_all2_names:
  "list_all2 (\<lambda>d i. interface_data d = Inr i) ds is \<Longrightarrow> map name is = map name ds"
  by (induction rule: list_all2_induct) (auto dest: interface_data_Inr)

lemma names_are_keys:
  "\<forall>(k, d) \<in> set al. name d = k \<Longrightarrow>
   map name (filter P (map snd al)) = map fst (filter (\<lambda>p. P (snd p)) al)"
  by (induction al) auto

lemma filter_distinct_keys:
  "distinct (map fst al) \<Longrightarrow>
   filter (\<lambda>k. k \<in> fst ` set (filter Q al)) (map fst al) = map fst (filter Q al)"
proof (induction al)
  case Nil
  then show ?case by simp
next
  case (Cons p al)
  then have notin: "fst p \<notin> set (map fst al)" and dist: "distinct (map fst al)"
    by simp_all
  have sub: "fst ` set (filter Q al) \<subseteq> set (map fst al)"
    by auto
  have rest: "filter (\<lambda>k. k = fst p \<or> k \<in> fst ` set (filter Q al)) (map fst al)
      = filter (\<lambda>k. k \<in> fst ` set (filter Q al)) (map fst al)"
  proof (rule filter_cong [OF refl])
    fix k
    assume "k \<in> set (map fst al)"
    with notin have "k \<noteq> fst p"
      by blast
    then show "(k = fst p \<or> k \<in> fst ` set (filter Q al)) = (k \<in> fst ` set (filter Q al))"
      by simp
  qed
  show ?case
  proof (cases "Q p")
    case True
    with rest Cons.IH [OF dist] show ?thesis
      by simp
  next
    case False
    have "fst p \<notin> fst ` set (filter Q al)"
      using notin sub by blast
    with False Cons.IH [OF dist] show ?thesis
      by simp
  qed
qed

text \<open>
  C10.  The dictionary of the scan has its keys in the order of the first header line of each
  name, also when a later header replaces a record.  The list that \<open>parse_interface_data\<close>
  returns keeps that order: its names are the first occurrences of the header names, in order,
  without the names of the records that are not in the list.
\<close>

theorem output_order_first_occurrence:
  assumes "fs filename = Inr lines"
    and "parse_interface_data fs filename = (msgs, interfaces)"
  shows "(\<forall>s. scan_lines lines initial_state = Inr s \<longrightarrow>
            map fst (interface_stats s) = first_occurrences (header_names lines))
    \<and> map name interfaces
        = filter (\<lambda>n. n \<in> name ` set interfaces) (first_occurrences (header_names lines))"
proof -
  have keys: "\<forall>s. scan_lines lines initial_state = Inr s \<longrightarrow>
      map fst (interface_stats s) = first_occurrences (header_names lines)"
    by (simp add: scan_keys_first_occurrences)
  have "map name interfaces
      = filter (\<lambda>n. n \<in> name ` set interfaces) (first_occurrences (header_names lines))"
  proof (cases "scan_lines lines initial_state")
    case (Inl e)
    with assms have "interfaces = []"
      by (simp add: parse_interface_data_def handler_def split: if_splits)
    then show ?thesis
      by simp
  next
    case (Inr s)
    note parse = parse_scanned [of fs filename lines s, OF assms(1) Inr]
    show ?thesis
    proof (cases "process_stats (interface_stats s) []")
      case (Inl e)
      with parse assms(2) have "interfaces = []"
        by (simp add: handler_def split: if_splits)
      then show ?thesis
        by simp
    next
      case out: (Inr out)
      with parse assms(2) have interfaces: "interfaces = out"
        by simp
      have inv: "scan_inv s"
        using scan_inv_initial Inr by (rule scan_lines_inv)
      from process_stats_Inr [OF out]
      have "list_all2 (\<lambda>d i. interface_data d = Inr i)
          (filter passes (map snd (interface_stats s))) out"
        by simp
      then have "map name out = map name (filter passes (map snd (interface_stats s)))"
        by (rule list_all2_names)
      also have "\<dots> = map fst (filter (\<lambda>p. passes (snd p)) (interface_stats s))"
        using inv by (intro names_are_keys) (auto simp: scan_inv_def)
      finally have names: "map name out
          = map fst (filter (\<lambda>p. passes (snd p)) (interface_stats s))" .
      then have "name ` set out = fst ` set (filter (\<lambda>p. passes (snd p)) (interface_stats s))"
        by (metis list.set_map)
      moreover have "filter (\<lambda>k. k \<in> fst ` set (filter (\<lambda>p. passes (snd p)) (interface_stats s)))
            (map fst (interface_stats s))
          = map fst (filter (\<lambda>p. passes (snd p)) (interface_stats s))"
        using inv by (intro filter_distinct_keys) (simp add: scan_inv_def)
      ultimately show ?thesis
        using names keys Inr interfaces by simp
    qed
  qed
  with keys show ?thesis
    by simp
qed

lemma first_occurrences_sample:
  "first_occurrences [''Gi0/1'', ''Gi0/2'', ''Gi0/1''] = [''Gi0/1'', ''Gi0/2'']"
  by simp

theorem output_order_first_occurrence_witness:
  "parse_interface_data (\<lambda>f. Inr sample_lines) ''int_error.txt''
     = ([], [interface_a, interface_b])
   \<and> scan_lines sample_lines initial_state = Inr sample_state
   \<and> header_names sample_lines = [''Gi0/1'', ''Gi0/2'', ''Gi0/1'']
   \<and> map fst (interface_stats sample_state) = first_occurrences (header_names sample_lines)
   \<and> map name [interface_a, interface_b]
        = filter (\<lambda>n. n \<in> name ` set [interface_a, interface_b])
            (first_occurrences (header_names sample_lines))
   \<and> map name [interface_a, interface_b] = [''Gi0/1'', ''Gi0/2'']"
proof -
  have fs: "(\<lambda>f. Inr sample_lines) ''int_error.txt'' = Inr sample_lines"
    by simp
  have names: "map name [interface_a, interface_b] = [''Gi0/1'', ''Gi0/2'']"
    by (simp add: interface_a_def interface_b_def)
  from output_order_first_occurrence [of "\<lambda>f. Inr sample_lines" "''int_error.txt''"
      sample_lines "[]" "[interface_a, interface_b]", OF fs sample_parse] scan_sample
  have "map fst (interface_stats sample_state) = first_occurrences (header_names sample_lines)"
    and "map name [interface_a, interface_b]
        = filter (\<lambda>n. n \<in> name ` set [interface_a, interface_b])
            (first_occurrences (header_names sample_lines))"
    by blast+
  then show ?thesis
    using sample_parse scan_sample header_names_sample names by blast
qed


end
